theory Spec2Isabelle
  imports Main "HOL-Library.AList"
begin

section \<open>Promises\<close>

text \<open>
  A promise is pending until the first call of its \<open>resolve\<close> or \<open>reject\<close>
  function; later calls change nothing.
\<close>

datatype ('a, 'r) promise = Pending | Resolved 'a | Rejected 'r

definition resolve :: "'a \<Rightarrow> ('a, 'r) promise \<Rightarrow> ('a, 'r) promise" where
  "resolve v p = (case p of Pending \<Rightarrow> Resolved v | Resolved a \<Rightarrow> Resolved a | Rejected r \<Rightarrow> Rejected r)"

definition reject :: "'r \<Rightarrow> ('a, 'r) promise \<Rightarrow> ('a, 'r) promise" where
  "reject r p = (case p of Pending \<Rightarrow> Rejected r | Resolved a \<Rightarrow> Resolved a | Rejected q \<Rightarrow> Rejected q)"

text \<open>
  What a promise can be rejected with in \<open>idb.service.ts\<close>: an event object handed
  over by the engine (\<open>reject(evt)\<close>), the \<open>error\<close> property of such an event
  (\<open>reject(evt.error)\<close>), an \<open>Error\<close> object the service makes itself, a string
  it builds itself, or an exception that a call to the engine has thrown inside a
  function given to \<open>then\<close> (named by the name of the exception).
\<close>

datatype 'e reason = Event 'e | ErrorOf 'e | JsError string | JsString string | Thrown string

text \<open>
  Every function of the service is modelled as a pair: the calls it has made (to the
  engine and to the client's callbacks), in order, and the state of the promise it
  returned, once the engine has delivered its events.
\<close>

definition thenP :: "'c list \<times> ('a, 'r) promise \<Rightarrow> ('a \<Rightarrow> 'c list \<times> ('b, 'r) promise)
    \<Rightarrow> 'c list \<times> ('b, 'r) promise" where
  "thenP m f = (case snd m of
       Pending \<Rightarrow> (fst m, Pending)
     | Rejected r \<Rightarrow> (fst m, Rejected r)
     | Resolved a \<Rightarrow> (fst m @ fst (f a), snd (f a)))"

section \<open>The engine as seen by the service\<close>

datatype mode = ReadOnly | ReadWrite

datatype direction = Next | Prev

text \<open>\<open>stores: string | Array<string>\<close>\<close>

datatype scope = Name string | Names "string list"

text \<open>
  The calls the service makes. \<open>'k\<close> is the type of keys and key ranges, \<open>'v\<close> of
  stored values, \<open>'db\<close> of database handles. \<open>Close\<close> is \<open>IDBDatabase.close\<close>.
\<close>

datatype ('k, 'v, 'db) call =
    Open string int
  | Transaction 'db scope mode
  | Get string 'k
  | OpenCursor string "'k option" "direction option"
  | IndexGet string string 'k
  | IndexOpenCursor string string "'k option" "direction option"
  | Delete string 'k
  | Add string 'v
  | Put string 'v
  | Clear string
  | Continue
  | Close 'db
  | OnVersionChange 'db
  | OnUpgradeNeeded 'db
  | OnBlocked

text \<open>The events of an open request, each named after the handler it runs.\<close>

datatype ('db, 'e) open_event =
    OpenError 'e
  | OpenSuccess 'db
  | OpenUpgradeNeeded 'db
  | OpenBlocked

text \<open>
  The events of a transaction and of its requests, each named after the handler it
  runs. The requests of a transaction are numbered from 0 in the order the service
  issues them. \<open>Success n result\<close> runs \<open>onsuccess\<close> of request \<open>n\<close> with
  \<open>evt.target.result = result\<close>; \<open>CursorSuccess n c\<close> is the same for a cursor
  request, where \<open>c\<close> is \<open>None\<close> for the null cursor and \<open>Some v\<close> for a cursor
  whose \<open>value\<close> is \<open>v\<close>; \<open>Error n evt\<close> runs \<open>onerror\<close> of request \<open>n\<close>;
  \<open>Complete\<close> and \<open>TxError evt\<close> run \<open>oncomplete\<close> and \<open>onerror\<close> of the
  transaction. An event whose handler is not set runs nothing.
\<close>

datatype ('v, 'e) tx_event =
    Success nat 'v
  | CursorSuccess nat "'v option"
  | Error nat 'e
  | Complete
  | TxError 'e

text \<open>
  What the browser does in one run: whether \<open>window.indexedDB\<close> is there, whether
  \<open>indexedDB.open\<close> throws (and the text of what it throws), the events of the open
  request and the events of the transaction started on the opened database.
\<close>

record ('db, 'v, 'e) engine =
  indexedDB :: bool
  open_throws :: "string option"
  open_events :: "('db, 'e) open_event list"
  tx_events :: "('v, 'e) tx_event list"

section \<open>IDBServiceConfig and the constructor\<close>

datatype blocked_callback = Noop | ClientOnBlocked

record 'db IDBServiceConfig =
  database :: string
  version :: int
  onUpgradeNeeded :: "'db \<Rightarrow> 'db"
  onVersionChange :: "('db \<Rightarrow> bool) option"
  onBlocked :: "blocked_callback option"

record 'db IDBService =
  svc_database :: string
  svc_version :: int
  svc_onupgradeneeded :: "'db \<Rightarrow> 'db"
  svc_onblocked :: blocked_callback
  svc_db :: "'db option"
  idbServiceConfig :: "'db IDBServiceConfig"

definition constructor :: "'db IDBServiceConfig \<Rightarrow> 'db IDBService" where
  "constructor cfg =
     \<lparr> svc_database = database cfg,
       svc_version = version cfg,
       svc_onupgradeneeded = onUpgradeNeeded cfg,
       svc_onblocked = (case onBlocked cfg of None \<Rightarrow> Noop | Some cb \<Rightarrow> cb),
       svc_db = None,
       idbServiceConfig = cfg \<lparr> onVersionChange :=
         (case onVersionChange cfg of None \<Rightarrow> Some (\<lambda>db. True) | Some f \<Rightarrow> Some f) \<rparr> \<rparr>"

section \<open>\<open>_init_\<close> and \<open>getTransaction\<close>\<close>

text \<open>
  The handler of \<open>upgradeneeded\<close>: the calls to the client's callbacks it makes.
  Calling an \<open>onVersionChange\<close> that is undefined throws, and nothing else is called.
\<close>

definition init_onupgradeneeded :: "'db IDBService \<Rightarrow> 'db \<Rightarrow> ('k, 'v, 'db) call list" where
  "init_onupgradeneeded svc db =
     (case onVersionChange (idbServiceConfig svc) of
        None \<Rightarrow> []
      | Some f \<Rightarrow> if f db then [OnVersionChange db, OnUpgradeNeeded db] else [OnVersionChange db])"

definition init_onblocked :: "'db IDBService \<Rightarrow> ('k, 'v, 'db) call list" where
  "init_onblocked svc = (case svc_onblocked svc of Noop \<Rightarrow> [] | ClientOnBlocked \<Rightarrow> [OnBlocked])"

fun init_step :: "'db IDBService \<Rightarrow> ('k, 'v, 'db) call list \<times> ('db, 'e reason) promise
    \<Rightarrow> ('db, 'e) open_event \<Rightarrow> ('k, 'v, 'db) call list \<times> ('db, 'e reason) promise" where
  "init_step svc (cs, p) (OpenError evt) = (cs, reject (Event evt) p)"
| "init_step svc (cs, p) (OpenSuccess db) = (cs, resolve db p)"
| "init_step svc (cs, p) (OpenUpgradeNeeded db) = (cs @ init_onupgradeneeded svc db, p)"
| "init_step svc (cs, p) OpenBlocked = (cs @ init_onblocked svc, p)"

definition init :: "'db IDBService \<Rightarrow> ('db, 'w, 'e) engine
    \<Rightarrow> ('k, 'v, 'db) call list \<times> ('db, 'e reason) promise" where
  "init svc eng =
     (if \<not> indexedDB eng
      then ([], Rejected (JsError ''Browser kit does not support indexedDB''))
      else case open_throws eng of
        Some e \<Rightarrow> ([Open (svc_database svc) (svc_version svc)], Rejected (JsString (''ERROR: '' @ e)))
      | None \<Rightarrow> foldl (init_step svc)
          ([Open (svc_database svc) (svc_version svc)], Pending) (open_events eng))"

datatype 'db transaction = Trans 'db scope mode

text \<open>
  \<open>getTransaction\<close> and the operations of the next sections are written for an
  engine that accepts every call made on the database and on the transaction, so
  that the requests exist and their events can come. The same operations on an engine
  that throws at a call (\<open>transaction\<close> on an unknown store, \<open>add\<close> on a value it
  cannot store) are in the section on the calls that the engine refuses.
\<close>

definition getTransaction :: "'db IDBService \<Rightarrow> ('db, 'w, 'e) engine \<Rightarrow> scope \<Rightarrow> mode option
    \<Rightarrow> ('k, 'v, 'db) call list \<times> ('db transaction, 'e reason) promise" where
  "getTransaction svc eng stores mode =
     (let mode = (case mode of None \<Rightarrow> ReadOnly | Some m \<Rightarrow> m)
      in thenP (init svc eng) (\<lambda>db. ([Transaction db stores mode], Resolved (Trans db stores mode))))"

section \<open>The read operations\<close>

definition cast :: "'v \<Rightarrow> 'v" where
  "cast param = param"

text \<open>\<open>getObjectByKey\<close>: request 0 is the \<open>get\<close>.\<close>

fun getObjectByKey_handlers :: "('v \<Rightarrow> 'v) \<Rightarrow> ('v, 'e reason) promise \<Rightarrow> ('v, 'e) tx_event
    \<Rightarrow> ('v, 'e reason) promise" where
  "getObjectByKey_handlers fn p (Error 0 errorEvent) = reject (Event errorEvent) p"
| "getObjectByKey_handlers fn p (Success 0 result) = resolve (fn result) p"
| "getObjectByKey_handlers fn p _ = p"

definition getObjectByKey :: "'db IDBService \<Rightarrow> ('db, 'v, 'e) engine \<Rightarrow> scope \<Rightarrow> string \<Rightarrow> 'k
    \<Rightarrow> ('v \<Rightarrow> 'v) option \<Rightarrow> ('k, 'v, 'db) call list \<times> ('v, 'e reason) promise" where
  "getObjectByKey svc eng stores store keyRange cast_op =
     (let fn = (case cast_op of None \<Rightarrow> cast | Some f \<Rightarrow> f)
      in thenP (getTransaction svc eng stores None) (\<lambda>trans.
           ([Get store keyRange], foldl (getObjectByKey_handlers fn) Pending (tx_events eng))))"

text \<open>
  \<open>getObjects\<close>: request 0 is the cursor request. The state of the handlers is the
  calls made so far, the array \<open>res\<close> and the promise.
\<close>

fun getObjects_handlers :: "('v \<Rightarrow> 'v)
    \<Rightarrow> ('k, 'v, 'db) call list \<times> 'v list \<times> ('v list, 'e reason) promise \<Rightarrow> ('v, 'e) tx_event
    \<Rightarrow> ('k, 'v, 'db) call list \<times> 'v list \<times> ('v list, 'e reason) promise" where
  "getObjects_handlers fn (cs, res, p) (Error 0 errorEvt) = (cs, res, reject (Event errorEvt) p)"
| "getObjects_handlers fn (cs, res, p) (CursorSuccess 0 (Some v)) = (cs @ [Continue], res @ [fn v], p)"
| "getObjects_handlers fn (cs, res, p) (CursorSuccess 0 None) = (cs, res, resolve res p)"
| "getObjects_handlers fn (cs, res, p) _ = (cs, res, p)"

definition getObjects_direction :: "bool \<Rightarrow> direction option" where
  "getObjects_direction reverse = (if reverse then None else Some Prev)"

definition getObjects :: "'db IDBService \<Rightarrow> ('db, 'v, 'e) engine \<Rightarrow> scope \<Rightarrow> string \<Rightarrow> 'k option
    \<Rightarrow> bool option \<Rightarrow> ('v \<Rightarrow> 'v) option \<Rightarrow> ('k, 'v, 'db) call list \<times> ('v list, 'e reason) promise" where
  "getObjects svc eng stores store keyRange reverse cast_op =
     (let reverse = (case reverse of None \<Rightarrow> False | Some b \<Rightarrow> b);
          fn = (case cast_op of None \<Rightarrow> cast | Some f \<Rightarrow> f)
      in thenP (getTransaction svc eng stores None) (\<lambda>trans.
           case foldl (getObjects_handlers fn)
                  ([OpenCursor store keyRange (getObjects_direction reverse)], [], Pending)
                  (tx_events eng)
           of (cs, res, p) \<Rightarrow> (cs, p)))"

text \<open>
  \<open>getObjectsByIndex\<close>: request 0 is the cursor request; it has no \<open>onerror\<close>, the
  transaction has (which also prints the event on the console).
\<close>

fun getObjectsByIndex_handlers :: "('v \<Rightarrow> 'v)
    \<Rightarrow> ('k, 'v, 'db) call list \<times> 'v list \<times> ('v list, 'e reason) promise \<Rightarrow> ('v, 'e) tx_event
    \<Rightarrow> ('k, 'v, 'db) call list \<times> 'v list \<times> ('v list, 'e reason) promise" where
  "getObjectsByIndex_handlers fn (cs, res, p) (TxError evt) = (cs, res, reject (Event evt) p)"
| "getObjectsByIndex_handlers fn (cs, res, p) (CursorSuccess 0 (Some v)) = (cs @ [Continue], res @ [fn v], p)"
| "getObjectsByIndex_handlers fn (cs, res, p) (CursorSuccess 0 None) = (cs, res, resolve res p)"
| "getObjectsByIndex_handlers fn (cs, res, p) _ = (cs, res, p)"

definition getObjectsByIndex_direction :: "bool \<Rightarrow> direction option" where
  "getObjectsByIndex_direction reverse = (if reverse then Some Prev else None)"

definition getObjectsByIndex :: "'db IDBService \<Rightarrow> ('db, 'v, 'e) engine \<Rightarrow> scope \<Rightarrow> string \<Rightarrow> string
    \<Rightarrow> 'k option \<Rightarrow> bool option \<Rightarrow> ('v \<Rightarrow> 'v) option
    \<Rightarrow> ('k, 'v, 'db) call list \<times> ('v list, 'e reason) promise" where
  "getObjectsByIndex svc eng stores store index rng reverse cast_op =
     (let reverse = (case reverse of None \<Rightarrow> False | Some b \<Rightarrow> b);
          fn = (case cast_op of None \<Rightarrow> cast | Some f \<Rightarrow> f)
      in thenP (getTransaction svc eng stores None) (\<lambda>trans.
           case foldl (getObjectsByIndex_handlers fn)
                  ([IndexOpenCursor store index rng (getObjectsByIndex_direction reverse)], [], Pending)
                  (tx_events eng)
           of (cs, res, p) \<Rightarrow> (cs, p)))"

section \<open>\<open>removeObjectsByKey\<close>, \<open>replaceObjectByKey\<close> and \<open>clearStore\<close>\<close>

fun removeObjectsByKey_handlers :: "(unit, 'e reason) promise \<Rightarrow> ('v, 'e) tx_event
    \<Rightarrow> (unit, 'e reason) promise" where
  "removeObjectsByKey_handlers p (TxError errorEvt) = reject (Event errorEvt) p"
| "removeObjectsByKey_handlers p Complete = resolve () p"
| "removeObjectsByKey_handlers p _ = p"

definition removeObjectsByKey :: "'db IDBService \<Rightarrow> ('db, 'v, 'e) engine \<Rightarrow> scope \<Rightarrow> string \<Rightarrow> 'k
    \<Rightarrow> ('k, 'v, 'db) call list \<times> (unit, 'e reason) promise" where
  "removeObjectsByKey svc eng stores store rng =
     thenP (getTransaction svc eng stores (Some ReadWrite)) (\<lambda>trans.
       ([Delete store rng], foldl removeObjectsByKey_handlers Pending (tx_events eng)))"

text \<open>
  \<open>replaceObjectByKey\<close>: request 0 is the \<open>delete\<close>, whose \<open>onsuccess\<close> issues the
  \<open>add\<close>; the \<open>onsuccess\<close> of the \<open>add\<close> is a stub. An undefined key is \<open>None\<close>.
\<close>

fun replaceObjectByKey_handlers :: "string \<Rightarrow> 'v
    \<Rightarrow> ('k, 'v, 'db) call list \<times> ('v, 'e reason) promise \<Rightarrow> ('w, 'e) tx_event
    \<Rightarrow> ('k, 'v, 'db) call list \<times> ('v, 'e reason) promise" where
  "replaceObjectByKey_handlers store val (cs, p) Complete = (cs, resolve val p)"
| "replaceObjectByKey_handlers store val (cs, p) (TxError evt) = (cs, reject (ErrorOf evt) p)"
| "replaceObjectByKey_handlers store val (cs, p) (Success 0 r) = (cs @ [Add store val], p)"
| "replaceObjectByKey_handlers store val (cs, p) _ = (cs, p)"

definition replaceObjectByKey :: "'db IDBService \<Rightarrow> ('db, 'w, 'e) engine \<Rightarrow> string \<Rightarrow> 'k option \<Rightarrow> 'v
    \<Rightarrow> ('k, 'v, 'db) call list \<times> ('v, 'e reason) promise" where
  "replaceObjectByKey svc eng store key val =
     (case key of
        None \<Rightarrow> ([], Rejected (JsError ''updateByIndex() needs a key value!''))
      | Some k \<Rightarrow> thenP (getTransaction svc eng (Name store) (Some ReadWrite)) (\<lambda>trans.
           foldl (replaceObjectByKey_handlers store val) ([Delete store k], Pending) (tx_events eng)))"

fun clearStore_handlers :: "(unit, 'e reason) promise \<Rightarrow> ('v, 'e) tx_event
    \<Rightarrow> (unit, 'e reason) promise" where
  "clearStore_handlers p Complete = resolve () p"
| "clearStore_handlers p (TxError err) = reject (Event err) p"
| "clearStore_handlers p _ = p"

definition clearStore :: "'db IDBService \<Rightarrow> ('db, 'v, 'e) engine \<Rightarrow> string
    \<Rightarrow> ('k, 'v, 'db) call list \<times> (unit, 'e reason) promise" where
  "clearStore svc eng store =
     thenP (getTransaction svc eng (Name store) (Some ReadWrite)) (\<lambda>trans.
       ([Clear store], foldl clearStore_handlers Pending (tx_events eng)))"

section \<open>\<open>Promise.all\<close>\<close>

text \<open>
  \<open>Promise.all\<close> is rejected with the first rejection among its members and
  resolved with their values once all of them are resolved. \<open>promise_all cur ps\<close> is
  its state after a handler has run, from its state \<open>cur\<close> before and the states
  \<open>ps\<close> of the members after. A handler settles at most one member, so while
  \<open>cur\<close> is pending at most one member is rejected.
\<close>

fun first_rejection :: "('a, 'r) promise list \<Rightarrow> 'r option" where
  "first_rejection [] = None"
| "first_rejection (Rejected r # ps) = Some r"
| "first_rejection (p # ps) = first_rejection ps"

fun fulfilled :: "('a, 'r) promise list \<Rightarrow> 'a list option" where
  "fulfilled [] = Some []"
| "fulfilled (Resolved a # ps) = (case fulfilled ps of None \<Rightarrow> None | Some vs \<Rightarrow> Some (a # vs))"
| "fulfilled (p # ps) = None"

definition promise_all :: "('a list, 'r) promise \<Rightarrow> ('a, 'r) promise list \<Rightarrow> ('a list, 'r) promise" where
  "promise_all cur ps =
     (case cur of
        Pending \<Rightarrow> (case first_rejection ps of
                      Some r \<Rightarrow> Rejected r
                    | None \<Rightarrow> (case fulfilled ps of Some vs \<Rightarrow> Resolved vs | None \<Rightarrow> Pending))
      | Resolved vs \<Rightarrow> Resolved vs
      | Rejected r \<Rightarrow> Rejected r)"

definition promise_all2 :: "('a \<times> 'b, 'r) promise \<Rightarrow> ('a, 'r) promise \<Rightarrow> ('b, 'r) promise
    \<Rightarrow> ('a \<times> 'b, 'r) promise" where
  "promise_all2 cur a b =
     (case cur of
        Pending \<Rightarrow> (case a of
                      Rejected r \<Rightarrow> Rejected r
                    | Pending \<Rightarrow> (case b of Rejected r \<Rightarrow> Rejected r | Pending \<Rightarrow> Pending | Resolved y \<Rightarrow> Pending)
                    | Resolved x \<Rightarrow> (case b of Rejected r \<Rightarrow> Rejected r | Pending \<Rightarrow> Pending
                                     | Resolved y \<Rightarrow> Resolved (x, y)))
      | Resolved xy \<Rightarrow> Resolved xy
      | Rejected r \<Rightarrow> Rejected r)"

section \<open>\<open>storeObjects\<close>\<close>

text \<open>
  Request \<open>n\<close> is the \<open>add\<close> of \<open>data[n]\<close>. The state of the handlers is the
  promises of the requests, \<open>promiseA\<close>, \<open>promiseB\<close> and
  \<open>Promise.all([promiseA, promiseB])\<close>.
\<close>

fun storeObjects_requests :: "('w, 'e) tx_event \<Rightarrow> (unit, 'e reason) promise list
    \<Rightarrow> (unit, 'e reason) promise list" where
  "storeObjects_requests (Error n errEvt) reqs =
     (if n < length reqs then reqs[n := reject (Event errEvt) (reqs ! n)] else reqs)"
| "storeObjects_requests (Success n r) reqs =
     (if n < length reqs then reqs[n := resolve () (reqs ! n)] else reqs)"
| "storeObjects_requests _ reqs = reqs"

fun storeObjects_promiseA :: "'v list \<Rightarrow> ('w, 'e) tx_event \<Rightarrow> ('v list, 'e reason) promise
    \<Rightarrow> ('v list, 'e reason) promise" where
  "storeObjects_promiseA data Complete p = resolve data p"
| "storeObjects_promiseA data (TxError errEvt) p = reject (Event errEvt) p"
| "storeObjects_promiseA data _ p = p"

type_synonym ('v, 'e) storeObjects_state =
  "(unit, 'e reason) promise list \<times> ('v list, 'e reason) promise \<times> (unit list, 'e reason) promise
     \<times> ('v list \<times> unit list, 'e reason) promise"

fun storeObjects_handlers :: "'v list \<Rightarrow> ('v, 'e) storeObjects_state \<Rightarrow> ('w, 'e) tx_event
    \<Rightarrow> ('v, 'e) storeObjects_state" where
  "storeObjects_handlers data (reqs, a, b, both) ev =
     (let reqs' = storeObjects_requests ev reqs;
          a' = storeObjects_promiseA data ev a;
          b' = promise_all b reqs'
      in (reqs', a', b', promise_all2 both a' b'))"

definition storeObjects_start :: "'v list \<Rightarrow> ('v, 'e) storeObjects_state" where
  "storeObjects_start data =
     (let reqs = map (\<lambda>d. Pending) data;
          b = promise_all Pending reqs
      in (reqs, Pending, b, promise_all2 Pending Pending b))"

definition storeObjects :: "'db IDBService \<Rightarrow> ('db, 'w, 'e) engine \<Rightarrow> string \<Rightarrow> 'v list
    \<Rightarrow> ('k, 'v, 'db) call list \<times> ('v list, 'e reason) promise" where
  "storeObjects svc eng store data =
     thenP (getTransaction svc eng (Name store) (Some ReadWrite)) (\<lambda>trans.
       (map (\<lambda>d. Add store d) data,
        case foldl (storeObjects_handlers data) (storeObjects_start data) (tx_events eng)
        of (reqs, a, b, both) \<Rightarrow>
          (case both of Pending \<Rightarrow> Pending | Rejected r \<Rightarrow> Rejected r
           | Resolved vals \<Rightarrow> Resolved (fst vals))))"

section \<open>\<open>updateObjectsByIndex\<close>\<close>

text \<open>
  Stored values are objects here: their properties, as pairs of a name and a value,
  in the order they were first set. A result that is \<open>undefined\<close> is \<open>None\<close>.
\<close>

type_synonym 'p obj = "(string \<times> 'p) list"

record 'p PutParams =
  p_index :: "string option"
  p_name :: string
  p_value :: 'p

text \<open>What \<open>promiseA\<close> is resolved with: one object, or an array of objects.\<close>

datatype 'p updated = Single "'p obj" | Multiple "'p obj list"

text \<open>
  Request 0 is the \<open>get\<close> or the cursor request on the index; request \<open>n + 1\<close> is
  the \<open>n\<close>-th \<open>put\<close>. The state of the handlers: the calls made so far, the
  promises \<open>updateOne\<close> has returned and the \<open>oldValue\<close> of each, the lengths of
  the arrays \<open>Promise.all(promises)\<close> was called with, \<open>promiseA\<close> and
  \<open>promiseB\<close>.
\<close>

record ('k, 'p, 'db, 'e) update_state =
  u_calls :: "('k, 'p obj, 'db) call list"
  u_promises :: "('p obj, 'e reason) promise list"
  u_olds :: "'p obj list"
  u_alls :: "nat list"
  u_promiseA :: "('p updated, 'e reason) promise"
  u_promiseB :: "(unit, 'e reason) promise"

text \<open>
  \<open>updateOne\<close>: \<open>params\<close> is not empty, so on an \<open>oldValue\<close> that is undefined
  the first assignment throws and the handler ends there.
\<close>

definition updateOne :: "string \<Rightarrow> 'p PutParams list \<Rightarrow> 'p obj option
    \<Rightarrow> ('k, 'p, 'db, 'e) update_state \<Rightarrow> ('k, 'p, 'db, 'e) update_state" where
  "updateOne store params oldValue s =
     (case oldValue of
        None \<Rightarrow> s
      | Some ob \<Rightarrow>
          (let new = fold (\<lambda>param ob. AList.update (p_name param) (p_value param) ob) params ob
           in s\<lparr> u_calls := u_calls s @ [Put store new],
                 u_promises := u_promises s @ [Pending],
                 u_olds := u_olds s @ [new] \<rparr>))"

text \<open>\<open>Promise.all(promises).then(values => resolve(values))\<close>, for every such call so far.\<close>

definition settle_all :: "('k, 'p, 'db, 'e) update_state \<Rightarrow> ('k, 'p, 'db, 'e) update_state" where
  "settle_all s =
     foldl (\<lambda>s n. case fulfilled (take n (u_promises s)) of
                     None \<Rightarrow> s
                   | Some vals \<Rightarrow> s\<lparr> u_promiseA := resolve (Multiple vals) (u_promiseA s) \<rparr>)
       s (u_alls s)"

definition put_onsuccess :: "bool \<Rightarrow> nat \<Rightarrow> ('k, 'p, 'db, 'e) update_state
    \<Rightarrow> ('k, 'p, 'db, 'e) update_state" where
  "put_onsuccess allMatches n s =
     (if n < length (u_promises s)
      then case u_promises s ! n of
             Pending \<Rightarrow>
               (let s' = s\<lparr> u_promises := (u_promises s)[n := Resolved (u_olds s ! n)] \<rparr>
                in if allMatches then settle_all s'
                   else s'\<lparr> u_promiseA := resolve (Single (u_olds s ! n)) (u_promiseA s') \<rparr>)
           | Resolved v \<Rightarrow> s
           | Rejected r \<Rightarrow> s
      else s)"

definition put_onerror :: "nat \<Rightarrow> 'e \<Rightarrow> ('k, 'p, 'db, 'e) update_state
    \<Rightarrow> ('k, 'p, 'db, 'e) update_state" where
  "put_onerror n evt s =
     (if n < length (u_promises s)
      then s\<lparr> u_promises := (u_promises s)[n := reject (Event evt) (u_promises s ! n)] \<rparr>
      else s)"

fun updateObjectsByIndex_handlers :: "string \<Rightarrow> 'p PutParams list \<Rightarrow> bool
    \<Rightarrow> ('k, 'p, 'db, 'e) update_state \<Rightarrow> ('p obj option, 'e) tx_event
    \<Rightarrow> ('k, 'p, 'db, 'e) update_state" where
  "updateObjectsByIndex_handlers store params allMatches s (CursorSuccess 0 (Some v)) =
     (if allMatches then updateOne store params v s else s)"
| "updateObjectsByIndex_handlers store params allMatches s (CursorSuccess 0 None) =
     (if allMatches then settle_all (s\<lparr> u_alls := u_alls s @ [length (u_promises s)] \<rparr>) else s)"
| "updateObjectsByIndex_handlers store params allMatches s (Success 0 r) =
     (if allMatches then s else updateOne store params r s)"
| "updateObjectsByIndex_handlers store params allMatches s (Success (Suc n) r) =
     put_onsuccess allMatches n s"
| "updateObjectsByIndex_handlers store params allMatches s (Error (Suc n) evt) = put_onerror n evt s"
| "updateObjectsByIndex_handlers store params allMatches s Complete =
     s\<lparr> u_promiseB := resolve () (u_promiseB s) \<rparr>"
| "updateObjectsByIndex_handlers store params allMatches s _ = s"

definition updateObjectsByIndex :: "'db IDBService \<Rightarrow> ('db, 'p obj option, 'e) engine \<Rightarrow> string
    \<Rightarrow> string option \<Rightarrow> 'k \<Rightarrow> 'p PutParams list \<Rightarrow> bool option
    \<Rightarrow> ('k, 'p obj, 'db) call list \<times> ('p updated list, 'e reason) promise" where
  "updateObjectsByIndex svc eng store index indexVal params allMatches =
     (let allMatches = (case allMatches of None \<Rightarrow> False | Some b \<Rightarrow> b)
      in if params = [] then ([], Rejected (JsError ''updateByIndex() needs at least one PutParams''))
         else case index of
           None \<Rightarrow> ([], Rejected (JsError ''updateByProperty() needs index of the value!''))
         | Some idx \<Rightarrow>
             thenP (getTransaction svc eng (Name store) (Some ReadWrite)) (\<lambda>trans.
               let s = foldl (updateObjectsByIndex_handlers store params allMatches)
                         \<lparr> u_calls = [if allMatches then IndexOpenCursor store idx (Some indexVal) None
                                       else IndexGet store idx indexVal],
                           u_promises = [], u_olds = [], u_alls = [],
                           u_promiseA = Pending, u_promiseB = Pending \<rparr>
                         (tx_events eng)
               in (u_calls s,
                   case promise_all2 Pending (u_promiseA s) (u_promiseB s) of
                     Pending \<Rightarrow> Pending
                   | Rejected r \<Rightarrow> Rejected r
                   | Resolved vals \<Rightarrow> Resolved [fst vals])))"

section \<open>Calls that the engine refuses\<close>

text \<open>
  A call to the engine can throw instead of returning: \<open>transaction\<close> on a store
  that the database does not have, \<open>objectStore\<close>, \<open>index\<close>, \<open>get\<close>, \<open>add\<close> and
  the others on a name, a key or a value that the engine does not accept. The
  definitions above are the operations on an engine that accepts every call of the
  transaction. Here \<open>throws c\<close> is the name of the exception that the engine throws
  at the call \<open>c\<close>, if it throws there (\<open>Get s k\<close> stands for
  \<open>objectStore(s).get(k)\<close>, and likewise the others: such a call throws when one of
  its parts does).

  The service catches nothing. A call that throws inside a function given to
  \<open>then\<close>, or inside the executor of a promise made there, ends the calls of that
  function, and the promise that the operation returns is rejected with the
  exception. \<open>attempt\<close> makes the calls in order up to the first that throws.

  A call made inside an event handler (\<open>cursor.continue\<close>, the \<open>add\<close> of
  \<open>replaceObjectByKey\<close>, the \<open>put\<close> of \<open>updateOne\<close>) is outside every
  promise executor and every function given to \<open>then\<close>: an exception there leaves
  the handler and rejects no promise, so \<open>throws\<close> is not asked about these calls.
\<close>

fun attempt :: "(('k, 'v, 'db) call \<Rightarrow> string option) \<Rightarrow> ('k, 'v, 'db) call list
    \<Rightarrow> ('k, 'v, 'db) call list \<times> string option" where
  "attempt throws [] = ([], None)"
| "attempt throws (c # cs) =
     (case throws c of
        Some x \<Rightarrow> ([c], Some x)
      | None \<Rightarrow> (case attempt throws cs of (made, x) \<Rightarrow> (c # made, x)))"

text \<open>
  \<open>try_calls throws cs run\<close>: the function makes the calls \<open>cs\<close> and, when the
  engine has accepted them all, goes on as \<open>run\<close> (whose calls begin with \<open>cs\<close>).
\<close>

definition try_calls :: "(('k, 'v, 'db) call \<Rightarrow> string option) \<Rightarrow> ('k, 'v, 'db) call list
    \<Rightarrow> ('k, 'v, 'db) call list \<times> ('a, 'e reason) promise
    \<Rightarrow> ('k, 'v, 'db) call list \<times> ('a, 'e reason) promise" where
  "try_calls throws cs run =
     (case attempt throws cs of
        (made, Some x) \<Rightarrow> (made, Rejected (Thrown x))
      | (made, None) \<Rightarrow> run)"

definition getTransaction_throwing :: "(('k, 'v, 'db) call \<Rightarrow> string option)
    \<Rightarrow> 'db IDBService \<Rightarrow> ('db, 'w, 'e) engine \<Rightarrow> scope \<Rightarrow> mode option
    \<Rightarrow> ('k, 'v, 'db) call list \<times> ('db transaction, 'e reason) promise" where
  "getTransaction_throwing throws svc eng stores mode =
     (let mode = (case mode of None \<Rightarrow> ReadOnly | Some m \<Rightarrow> m)
      in thenP (init svc eng) (\<lambda>db.
           try_calls throws [Transaction db stores mode]
             ([Transaction db stores mode], Resolved (Trans db stores mode))))"


definition getObjects_throwing :: "(('k, 'v, 'db) call \<Rightarrow> string option)
    \<Rightarrow> 'db IDBService \<Rightarrow> ('db, 'v, 'e) engine \<Rightarrow> scope \<Rightarrow> string \<Rightarrow> 'k option
    \<Rightarrow> bool option \<Rightarrow> ('v \<Rightarrow> 'v) option \<Rightarrow> ('k, 'v, 'db) call list \<times> ('v list, 'e reason) promise" where
  "getObjects_throwing throws svc eng stores store keyRange reverse cast_op =
     (let reverse = (case reverse of None \<Rightarrow> False | Some b \<Rightarrow> b);
          fn = (case cast_op of None \<Rightarrow> cast | Some f \<Rightarrow> f)
      in thenP (getTransaction_throwing throws svc eng stores None) (\<lambda>trans.
           try_calls throws [OpenCursor store keyRange (getObjects_direction reverse)]
             (case foldl (getObjects_handlers fn)
                     ([OpenCursor store keyRange (getObjects_direction reverse)], [], Pending)
                     (tx_events eng)
              of (cs, res, p) \<Rightarrow> (cs, p))))"

definition getObjectsByIndex_throwing :: "(('k, 'v, 'db) call \<Rightarrow> string option)
    \<Rightarrow> 'db IDBService \<Rightarrow> ('db, 'v, 'e) engine \<Rightarrow> scope \<Rightarrow> string \<Rightarrow> string
    \<Rightarrow> 'k option \<Rightarrow> bool option \<Rightarrow> ('v \<Rightarrow> 'v) option
    \<Rightarrow> ('k, 'v, 'db) call list \<times> ('v list, 'e reason) promise" where
  "getObjectsByIndex_throwing throws svc eng stores store index rng reverse cast_op =
     (let reverse = (case reverse of None \<Rightarrow> False | Some b \<Rightarrow> b);
          fn = (case cast_op of None \<Rightarrow> cast | Some f \<Rightarrow> f)
      in thenP (getTransaction_throwing throws svc eng stores None) (\<lambda>trans.
           try_calls throws [IndexOpenCursor store index rng (getObjectsByIndex_direction reverse)]
             (case foldl (getObjectsByIndex_handlers fn)
                     ([IndexOpenCursor store index rng (getObjectsByIndex_direction reverse)], [], Pending)
                     (tx_events eng)
              of (cs, res, p) \<Rightarrow> (cs, p))))"

definition removeObjectsByKey_throwing :: "(('k, 'v, 'db) call \<Rightarrow> string option)
    \<Rightarrow> 'db IDBService \<Rightarrow> ('db, 'v, 'e) engine \<Rightarrow> scope \<Rightarrow> string \<Rightarrow> 'k
    \<Rightarrow> ('k, 'v, 'db) call list \<times> (unit, 'e reason) promise" where
  "removeObjectsByKey_throwing throws svc eng stores store rng =
     thenP (getTransaction_throwing throws svc eng stores (Some ReadWrite)) (\<lambda>trans.
       try_calls throws [Delete store rng]
         ([Delete store rng], foldl removeObjectsByKey_handlers Pending (tx_events eng)))"




text \<open>
  \<open>updateObjectsByIndex\<close>: the read of the index is made in the executor of
  \<open>promiseA\<close>; the exception rejects \<open>promiseA\<close> and with it
  \<open>Promise.all([promiseA, promiseB])\<close>.
\<close>

definition updateObjectsByIndex_throwing :: "(('k, 'p obj, 'db) call \<Rightarrow> string option)
    \<Rightarrow> 'db IDBService \<Rightarrow> ('db, 'p obj option, 'e) engine \<Rightarrow> string
    \<Rightarrow> string option \<Rightarrow> 'k \<Rightarrow> 'p PutParams list \<Rightarrow> bool option
    \<Rightarrow> ('k, 'p obj, 'db) call list \<times> ('p updated list, 'e reason) promise" where
  "updateObjectsByIndex_throwing throws svc eng store index indexVal params allMatches =
     (let allMatches = (case allMatches of None \<Rightarrow> False | Some b \<Rightarrow> b)
      in if params = [] then ([], Rejected (JsError ''updateByIndex() needs at least one PutParams''))
         else case index of
           None \<Rightarrow> ([], Rejected (JsError ''updateByProperty() needs index of the value!''))
         | Some idx \<Rightarrow>
             thenP (getTransaction_throwing throws svc eng (Name store) (Some ReadWrite)) (\<lambda>trans.
               try_calls throws
                 [if allMatches then IndexOpenCursor store idx (Some indexVal) None
                  else IndexGet store idx indexVal]
                 (let s = foldl (updateObjectsByIndex_handlers store params allMatches)
                           \<lparr> u_calls = [if allMatches then IndexOpenCursor store idx (Some indexVal) None
                                         else IndexGet store idx indexVal],
                             u_promises = [], u_olds = [], u_alls = [],
                             u_promiseA = Pending, u_promiseB = Pending \<rparr>
                           (tx_events eng)
                  in (u_calls s,
                      case promise_all2 Pending (u_promiseA s) (u_promiseB s) of
                        Pending \<Rightarrow> Pending
                      | Rejected r \<Rightarrow> Rejected r
                      | Resolved vals \<Rightarrow> Resolved [fst vals]))))"

section \<open>\<open>getObjects\<close> of the compiled \<open>idb.service.js\<close>\<close>

record ('k, 'v) GetParams =
  gp_reverse :: "bool option"
  gp_index :: "string option"
  gp_values :: "'k option"
  gp_unique :: "bool option"
  gp_castOp :: "('v \<Rightarrow> 'v) option"

text \<open>
  The function that the compiled \<open>getObjects\<close> passes to \<open>then\<close>, run on the
  transaction it is given and on the events of that transaction. \<open>params\<close> may be undefined. Its cursor handlers are those
  of the TypeScript source.
\<close>

definition js_getObjects_direction :: "('k, 'v) GetParams option \<Rightarrow> direction option" where
  "js_getObjects_direction params =
     (if (case params of None \<Rightarrow> False
          | Some ps \<Rightarrow> (case gp_reverse ps of None \<Rightarrow> False | Some b \<Rightarrow> b))
      then Some Prev else None)"

definition js_getObjects_then :: "'db transaction \<Rightarrow> string \<Rightarrow> ('k, 'v) GetParams option
    \<Rightarrow> ('v, 'e) tx_event list \<Rightarrow> ('k, 'v, 'db) call list \<times> ('v list, 'e reason) promise" where
  "js_getObjects_then tx store params evs =
     (let fn = (case params of None \<Rightarrow> cast
                | Some ps \<Rightarrow> (case gp_castOp ps of None \<Rightarrow> cast | Some f \<Rightarrow> f))
      in case foldl (getObjects_handlers fn)
                ([OpenCursor store (case params of None \<Rightarrow> None | Some ps \<Rightarrow> gp_values ps)
                    (js_getObjects_direction params)], [], Pending)
                evs
         of (cs, res, p) \<Rightarrow> (cs, p))"

section \<open>The cursor of the engine\<close>

text \<open>
  The engine is not part of the repository. What the Indexed Database standard says of
  a cursor that the handler continues every time: opened with direction \<open>"prev"\<close> it
  visits the records of its range in descending order, opened with no direction (or
  \<open>"next"\<close>) in ascending order, and after the last record it delivers the null
  cursor. \<open>records\<close> is the list of the values in range, in ascending order.
\<close>

definition traverse :: "direction option \<Rightarrow> 'v list \<Rightarrow> 'v list" where
  "traverse dir records = (case dir of Some Prev \<Rightarrow> rev records | Some Next \<Rightarrow> records | None \<Rightarrow> records)"

definition cursor_events :: "direction option \<Rightarrow> 'v list \<Rightarrow> ('v, 'e) tx_event list" where
  "cursor_events dir records =
     map (\<lambda>v. CursorSuccess 0 (Some v)) (traverse dir records) @ [CursorSuccess 0 None]"

section \<open>Reading the calls\<close>

text \<open>The operations on stores and indexes, as opposed to the calls that manage the handle.\<close>

fun is_operation :: "('k, 'v, 'db) call \<Rightarrow> bool" where
  "is_operation (Get s k) = True"
| "is_operation (OpenCursor s k d) = True"
| "is_operation (IndexGet s i k) = True"
| "is_operation (IndexOpenCursor s i k d) = True"
| "is_operation (Delete s k) = True"
| "is_operation (Add s v) = True"
| "is_operation (Put s v) = True"
| "is_operation (Clear s) = True"
| "is_operation c = False"


fun is_open :: "('k, 'v, 'db) call \<Rightarrow> bool" where
  "is_open (Open n v) = True"
| "is_open c = False"

fun is_close :: "('k, 'v, 'db) call \<Rightarrow> bool" where
  "is_close (Close db) = True"
| "is_close c = False"



text \<open>A rejection that hands over an event of the engine.\<close>

fun forwarded :: "'e reason \<Rightarrow> bool" where
  "forwarded (Event e) = True"
| "forwarded r = False"

text \<open>What \<open>_init_\<close> rejects with on its own: its two messages.\<close>

definition init_failure :: "'e reason \<Rightarrow> bool" where
  "init_failure r =
     (case r of
        JsError msg \<Rightarrow> msg = ''Browser kit does not support indexedDB''
      | JsString s \<Rightarrow> take 7 s = ''ERROR: ''
      | Event e \<Rightarrow> False
      | ErrorOf e \<Rightarrow> False
      | Thrown x \<Rightarrow> False)"

section \<open>The state of \<open>storeObjects\<close>\<close>

text \<open>
  What holds of the state of the handlers after the events \<open>evs\<close>: a promise is
  resolved only after its events, and rejected only with an event.
\<close>

definition storeObjects_inv :: "'v list \<Rightarrow> ('w, 'e) tx_event list \<Rightarrow> ('v, 'e) storeObjects_state \<Rightarrow> bool" where
  "storeObjects_inv data evs s =
     (case s of (reqs, a, b, both) \<Rightarrow>
        length reqs = length data \<and>
        (\<forall>n<length data. reqs ! n = Resolved () \<longrightarrow> (\<exists>r. Success n r \<in> set evs)) \<and>
        (\<forall>n<length data. \<forall>r. reqs ! n = Rejected r \<longrightarrow> forwarded r) \<and>
        (\<forall>x. a = Resolved x \<longrightarrow> x = data \<and> Complete \<in> set evs) \<and>
        (\<forall>r. a = Rejected r \<longrightarrow> forwarded r) \<and>
        (\<forall>ys. b = Resolved ys \<longrightarrow> (\<forall>n<length data. \<exists>r. Success n r \<in> set evs)) \<and>
        (\<forall>r. b = Rejected r \<longrightarrow> forwarded r) \<and>
        (\<forall>x y. both = Resolved (x, y) \<longrightarrow>
           x = data \<and> Complete \<in> set evs \<and> (\<forall>n<length data. \<exists>r. Success n r \<in> set evs)) \<and>
        (\<forall>r. both = Rejected r \<longrightarrow> forwarded r))"

section \<open>An example configuration and engine\<close>

text \<open>
  Database handles and events are numbers here. The engine asks for an upgrade,
  opens database 0 and delivers the given events to the transaction.
\<close>

definition example_config :: "nat IDBServiceConfig" where
  "example_config =
     \<lparr> database = ''app'', version = 1, onUpgradeNeeded = (\<lambda>db. db),
       onVersionChange = None, onBlocked = None \<rparr>"

definition example_engine :: "('v, nat) tx_event list \<Rightarrow> (nat, 'v, nat) engine" where
  "example_engine evs =
     \<lparr> indexedDB = True, open_throws = None,
       open_events = [OpenUpgradeNeeded 0, OpenSuccess 0], tx_events = evs \<rparr>"

definition example_calls :: "('k, 'v, nat) call list" where
  "example_calls = [Open ''app'' 1, OnVersionChange 0, OnUpgradeNeeded 0]"

section \<open>Promises and \<open>then\<close>\<close>

lemma resolve_simps [simp]:
  "resolve v Pending = Resolved v"
  "resolve v (Resolved a) = Resolved a"
  "resolve v (Rejected r) = Rejected r"
  by (simp_all add: resolve_def)

lemma reject_simps [simp]:
  "reject r Pending = Rejected r"
  "reject r (Resolved a) = Resolved a"
  "reject r (Rejected q) = Rejected q"
  by (simp_all add: reject_def)

lemma resolve_settled: "p \<noteq> Pending \<Longrightarrow> resolve v p = p"
  by (cases p) simp_all

lemma reject_settled: "p \<noteq> Pending \<Longrightarrow> reject r p = p"
  by (cases p) simp_all

lemma thenP_Resolved [simp]: "thenP (cs, Resolved a) f = (cs @ fst (f a), snd (f a))"
  by (simp add: thenP_def)

lemma thenP_Rejected [simp]: "thenP (cs, Rejected r) f = (cs, Rejected r)"
  by (simp add: thenP_def)

lemma thenP_Pending [simp]: "thenP (cs, Pending) f = (cs, Pending)"
  by (simp add: thenP_def)

section \<open>\<open>_init_\<close>\<close>

lemma init_tx_events [simp]: "init svc (eng\<lparr>tx_events := evs\<rparr>) = init svc eng"
  by (simp add: init_def split: option.splits)

lemma init_step_svc_db [simp]: "init_step (svc\<lparr>svc_db := h\<rparr>) s ev = init_step svc s ev"
  by (cases s; cases ev) (simp_all add: init_onupgradeneeded_def init_onblocked_def)

lemma init_fold_svc_db [simp]:
  "foldl (init_step (svc\<lparr>svc_db := h\<rparr>)) s evs = foldl (init_step svc) s evs"
  by (induction evs arbitrary: s) simp_all

lemma init_svc_db [simp]: "init (svc\<lparr>svc_db := h\<rparr>) eng = init svc eng"
  by (simp add: init_def split: option.splits)

lemma init_step_upgrade:
  "OnUpgradeNeeded db \<in> set (fst (foldl (init_step svc) (cs, p) evs)) \<longleftrightarrow>
     OnUpgradeNeeded db \<in> set cs \<or>
     (OpenUpgradeNeeded db \<in> set evs \<and>
      (case onVersionChange (idbServiceConfig svc) of None \<Rightarrow> False | Some f \<Rightarrow> f db))"
proof (induction evs arbitrary: cs p)
  case Nil
  then show ?case by simp
next
  case (Cons ev evs)
  show ?case
  proof (cases ev)
    case (OpenUpgradeNeeded d)
    then show ?thesis
      using Cons.IH [of "cs @ init_onupgradeneeded svc d" p]
      by (auto simp: init_onupgradeneeded_def split: option.splits if_splits)
  next
    case OpenBlocked
    then show ?thesis
      using Cons.IH [of "cs @ init_onblocked svc" p]
      by (auto simp: init_onblocked_def split: blocked_callback.splits)
  qed (use Cons.IH in auto)
qed

text \<open>The handlers of the open request add calls to callbacks only.\<close>

lemma init_step_filter:
  assumes "\<And>d. \<not> P (OnVersionChange d)" "\<And>d. \<not> P (OnUpgradeNeeded d)" "\<not> P OnBlocked"
  shows "filter P (fst (foldl (init_step svc) (cs, p) evs)) = filter P cs"
proof (induction evs arbitrary: cs p)
  case Nil
  then show ?case by simp
next
  case (Cons ev evs)
  show ?case
  proof (cases ev)
    case (OpenUpgradeNeeded d)
    then show ?thesis
      using Cons.IH [of "cs @ init_onupgradeneeded svc d" p] assms
      by (simp add: init_onupgradeneeded_def split: option.splits)
  next
    case OpenBlocked
    then show ?thesis
      using Cons.IH [of "cs @ init_onblocked svc" p] assms
      by (simp add: init_onblocked_def split: blocked_callback.splits)
  qed (use Cons.IH in simp_all)
qed

lemma init_filter:
  assumes "\<And>d. \<not> P (OnVersionChange d)" "\<And>d. \<not> P (OnUpgradeNeeded d)" "\<not> P OnBlocked"
  shows "filter P (fst (init svc eng)) =
     (if indexedDB eng then filter P [Open (svc_database svc) (svc_version svc)] else [])"
  using assms by (simp add: init_def init_step_filter split: option.splits)

lemma init_step_rejected:
  "snd (foldl (init_step svc) (cs, p) evs) = Rejected r \<Longrightarrow> p = Rejected r \<or> forwarded r"
proof (induction evs arbitrary: cs p)
  case Nil
  then show ?case by simp
next
  case (Cons ev evs)
  then show ?case
    by (cases ev; cases p) (auto dest!: Cons.IH)
qed

lemma init_rejected:
  "snd (init svc eng) = Rejected r \<Longrightarrow> forwarded r \<or> init_failure r"
  by (auto simp: init_def init_failure_def split: if_splits option.splits dest: init_step_rejected)

section \<open>\<open>getTransaction\<close>\<close>

lemma getTransaction_Resolved:
  "init svc eng = (cs, Resolved db) \<Longrightarrow>
   getTransaction svc eng stores mode =
     (cs @ [Transaction db stores (case mode of None \<Rightarrow> ReadOnly | Some m \<Rightarrow> m)],
      Resolved (Trans db stores (case mode of None \<Rightarrow> ReadOnly | Some m \<Rightarrow> m)))"
  by (simp add: getTransaction_def Let_def)

lemma getTransaction_Rejected:
  "init svc eng = (cs, Rejected r) \<Longrightarrow> getTransaction svc eng stores mode = (cs, Rejected r)"
  by (simp add: getTransaction_def)

lemma getTransaction_Pending:
  "init svc eng = (cs, Pending) \<Longrightarrow> getTransaction svc eng stores mode = (cs, Pending)"
  by (simp add: getTransaction_def)

section \<open>Calls that manage the handle\<close>

lemma thenP_filter:
  "filter P (fst (thenP m f)) =
     filter P (fst m) @ (case snd m of Resolved a \<Rightarrow> filter P (fst (f a)) | Pending \<Rightarrow> [] | Rejected r \<Rightarrow> [])"
  by (simp add: thenP_def split: promise.splits)

lemma getTransaction_filter:
  "(\<And>d s m. \<not> P (Transaction d s m)) \<Longrightarrow>
   filter P (fst (getTransaction svc eng stores mode)) = filter P (fst (init svc eng))"
  by (simp add: getTransaction_def thenP_filter Let_def split: promise.splits)

lemma getTransaction_rejected:
  "snd (getTransaction svc eng stores mode) = Rejected r \<Longrightarrow> forwarded r \<or> init_failure r"
  by (auto simp: getTransaction_def thenP_def Let_def split: promise.splits dest: init_rejected)

lemma thenP_rejected:
  "snd (thenP m f) = Rejected r \<Longrightarrow>
   snd m = Rejected r \<or> (\<exists>a. snd m = Resolved a \<and> snd (f a) = Rejected r)"
  by (auto simp: thenP_def split: promise.splits)

lemma thenP_rejected_pair:
  "thenP m f = (cs, Rejected r) \<Longrightarrow>
   snd m = Rejected r \<or> (\<exists>a. snd m = Resolved a \<and> snd (f a) = Rejected r)"
  by (auto simp: thenP_def split: promise.splits)

section \<open>\<open>getObjectByKey\<close>\<close>

lemma getObjectByKey_settled:
  "p \<noteq> Pending \<Longrightarrow> foldl (getObjectByKey_handlers fn) p evs = p"
proof (induction evs)
  case Nil
  show ?case by simp
next
  case (Cons ev evs)
  have "getObjectByKey_handlers fn p ev = p"
    using Cons.prems
    by (cases "(fn, p, ev)" rule: getObjectByKey_handlers.cases) (auto simp: resolve_settled reject_settled)
  then show ?case using Cons by simp
qed

lemma getObjectByKey_fold_rejected:
  "foldl (getObjectByKey_handlers fn) p evs = Rejected r \<Longrightarrow> p = Rejected r \<or> forwarded r"
proof (induction evs arbitrary: p)
  case Nil
  then show ?case by simp
next
  case (Cons ev evs)
  from Cons.prems have "getObjectByKey_handlers fn p ev = Rejected r \<or> forwarded r"
    by (auto dest: Cons.IH)
  then show ?case
    by (cases "(fn, p, ev)" rule: getObjectByKey_handlers.cases; cases p) auto
qed

lemma getObjectByKey_calls:
  "init svc eng = (cs, Resolved db) \<Longrightarrow>
   fst (getObjectByKey svc eng stores store keyRange cast_op) =
     cs @ [Transaction db stores ReadOnly, Get store keyRange]"
  by (simp add: getObjectByKey_def getTransaction_Resolved)

lemma getObjectByKey_success:
  "init svc eng = (cs, Resolved db) \<Longrightarrow>
   getObjectByKey svc (eng\<lparr>tx_events := Success 0 r # rest\<rparr>) stores store keyRange cast_op =
     (cs @ [Transaction db stores ReadOnly, Get store keyRange],
      Resolved ((case cast_op of None \<Rightarrow> cast | Some f \<Rightarrow> f) r))"
  by (simp add: getObjectByKey_def getTransaction_Resolved getObjectByKey_settled)

lemma getObjectByKey_error:
  "init svc eng = (cs, Resolved db) \<Longrightarrow>
   getObjectByKey svc (eng\<lparr>tx_events := Error 0 evt # rest\<rparr>) stores store keyRange cast_op =
     (cs @ [Transaction db stores ReadOnly, Get store keyRange], Rejected (Event evt))"
  by (simp add: getObjectByKey_def getTransaction_Resolved getObjectByKey_settled)

lemma getObjectByKey_waiting:
  "init svc eng = (cs, Resolved db) \<Longrightarrow>
   getObjectByKey svc (eng\<lparr>tx_events := []\<rparr>) stores store keyRange cast_op =
     (cs @ [Transaction db stores ReadOnly, Get store keyRange], Pending)"
  by (simp add: getObjectByKey_def getTransaction_Resolved)

lemma getObjectByKey_rejected:
  "snd (getObjectByKey svc eng stores store keyRange cast_op) = Rejected r \<Longrightarrow>
   forwarded r \<or> init_failure r"
  unfolding getObjectByKey_def Let_def
  by (auto dest!: thenP_rejected getTransaction_rejected getObjectByKey_fold_rejected)

lemma getObjectByKey_handle:
  assumes "\<And>c. is_operation c \<Longrightarrow> \<not> P c" "\<And>d s m. \<not> P (Transaction d s m)"
  shows "filter P (fst (getObjectByKey svc eng stores store keyRange cast_op)) =
     filter P (fst (init svc eng))"
  using assms
  by (simp add: getObjectByKey_def thenP_filter getTransaction_filter Let_def split: promise.splits)

section \<open>\<open>getObjects\<close>\<close>

lemma getObjects_visit:
  "foldl (getObjects_handlers fn) (cs, res, p) (map (\<lambda>v. CursorSuccess 0 (Some v)) vs) =
     (cs @ replicate (length vs) Continue, res @ map fn vs, p)"
proof (induction vs arbitrary: cs res)
  case Nil
  show ?case by simp
next
  case (Cons v vs)
  show ?case
    using Cons.IH [of "cs @ [Continue]" "res @ [fn v]"] by (simp add: replicate_app_Cons_same)
qed

lemma getObjects_step_cases:
  obtains k vs where "getObjects_handlers fn (cs, res, p) ev = (cs @ replicate k Continue, res @ vs, p)"
  | "getObjects_handlers fn (cs, res, p) ev = (cs, res, resolve res p)"
  | e where "getObjects_handlers fn (cs, res, p) ev = (cs, res, reject (Event e) p)"
proof (cases "(fn, (cs, res, p), ev)" rule: getObjects_handlers.cases)
  case (2 fn' cs' res' p' v)
  then show ?thesis using that(1) [of 1 "[fn v]"] by simp
qed (use that(1) [of 0 "[]"] that(2) that(3) in auto)

lemma getObjects_settled:
  "p \<noteq> Pending \<Longrightarrow> snd (snd (foldl (getObjects_handlers fn) (cs, res, p) evs)) = p"
proof (induction evs arbitrary: cs res)
  case Nil
  show ?case by simp
next
  case (Cons ev evs)
  show ?case
    by (rule getObjects_step_cases [of fn cs res p ev])
       (use Cons in \<open>simp_all add: resolve_settled reject_settled\<close>)
qed

lemma getObjects_fold_calls:
  "\<exists>k. fst (foldl (getObjects_handlers fn) (cs, res, p) evs) = cs @ replicate k Continue"
proof (induction evs arbitrary: cs res p)
  case Nil
  show ?case by (rule exI [of _ 0]) simp
next
  case (Cons ev evs)
  show ?case
  proof (rule getObjects_step_cases [of fn cs res p ev])
    fix k vs
    assume step: "getObjects_handlers fn (cs, res, p) ev = (cs @ replicate k Continue, res @ vs, p)"
    obtain j where "fst (foldl (getObjects_handlers fn) (cs @ replicate k Continue, res @ vs, p) evs) =
        (cs @ replicate k Continue) @ replicate j Continue"
      using Cons.IH by blast
    then show ?thesis
      using step by (intro exI [of _ "k + j"]) (simp add: replicate_add)
  qed (use Cons.IH in simp_all)
qed

lemma getObjects_fold_rejected:
  "snd (snd (foldl (getObjects_handlers fn) (cs, res, p) evs)) = Rejected r \<Longrightarrow>
   p = Rejected r \<or> forwarded r"
proof (induction evs arbitrary: cs res p)
  case Nil
  then show ?case by simp
next
  case (Cons ev evs)
  show ?case
    by (rule getObjects_step_cases [of fn cs res p ev]; cases p)
       (use Cons.prems in \<open>auto dest: Cons.IH\<close>)
qed

lemma getObjects_calls:
  "init svc eng = (cs, Resolved db) \<Longrightarrow>
   \<exists>k. fst (getObjects svc eng stores store keyRange reverse cast_op) =
     cs @ [Transaction db stores ReadOnly,
           OpenCursor store keyRange
             (getObjects_direction (case reverse of None \<Rightarrow> False | Some b \<Rightarrow> b))]
        @ replicate k Continue"
  using getObjects_fold_calls
    [of "case cast_op of None \<Rightarrow> cast | Some f \<Rightarrow> f"
        "[OpenCursor store keyRange (getObjects_direction (case reverse of None \<Rightarrow> False | Some b \<Rightarrow> b))]"
        "[]" Pending "tx_events eng"]
  by (simp add: getObjects_def getTransaction_Resolved Let_def case_prod_beta)

lemma getObjects_exhausted:
  "init svc eng = (cs, Resolved db) \<Longrightarrow>
   getObjects svc (eng\<lparr>tx_events := map (\<lambda>v. CursorSuccess 0 (Some v)) vs @ [CursorSuccess 0 None]\<rparr>)
       stores store keyRange reverse cast_op =
     (cs @ [Transaction db stores ReadOnly,
            OpenCursor store keyRange
              (getObjects_direction (case reverse of None \<Rightarrow> False | Some b \<Rightarrow> b))]
         @ replicate (length vs) Continue,
      Resolved (map (case cast_op of None \<Rightarrow> cast | Some f \<Rightarrow> f) vs))"
  by (simp add: getObjects_def getTransaction_Resolved Let_def getObjects_visit)

lemma getObjects_visiting:
  "init svc eng = (cs, Resolved db) \<Longrightarrow>
   getObjects svc (eng\<lparr>tx_events := map (\<lambda>v. CursorSuccess 0 (Some v)) vs\<rparr>)
       stores store keyRange reverse cast_op =
     (cs @ [Transaction db stores ReadOnly,
            OpenCursor store keyRange
              (getObjects_direction (case reverse of None \<Rightarrow> False | Some b \<Rightarrow> b))]
         @ replicate (length vs) Continue,
      Pending)"
  by (simp add: getObjects_def getTransaction_Resolved Let_def getObjects_visit)

lemma getObjects_then_exhausted:
  "snd (snd (foldl (getObjects_handlers fn) (cs, [], Pending)
       (map (\<lambda>v. CursorSuccess 0 (Some v)) vs @ CursorSuccess 0 None # rest))) = Resolved (map fn vs)"
  by (simp add: getObjects_visit getObjects_settled)

lemma getObjects_then_error:
  "snd (snd (foldl (getObjects_handlers fn) (cs, [], Pending)
       (map (\<lambda>v. CursorSuccess 0 (Some v)) vs @ Error 0 evt # rest))) = Rejected (Event evt)"
  by (simp add: getObjects_visit getObjects_settled)

lemma getObjects_settles:
  fixes cs :: "('k, 'v, 'db) call list" and keyRange :: "'k option" and eng :: "('db, 'v, 'e) engine"
  assumes "init svc eng = (cs, Resolved db)"
  shows "snd (getObjects svc
            (eng\<lparr>tx_events := map (\<lambda>v. CursorSuccess 0 (Some v)) vs @ CursorSuccess 0 None # rest\<rparr>)
            stores store keyRange reverse cast_op) =
           Resolved (map (case cast_op of None \<Rightarrow> cast | Some f \<Rightarrow> f) vs)"
    and "snd (getObjects svc
            (eng\<lparr>tx_events := map (\<lambda>v. CursorSuccess 0 (Some v)) vs @ Error 0 evt # rest\<rparr>)
            stores store keyRange reverse cast_op) = Rejected (Event evt)"
  using assms
  by (simp_all add: getObjects_def getTransaction_Resolved Let_def case_prod_beta
      getObjects_then_exhausted getObjects_then_error del: foldl_append foldl_Cons)

lemma getObjects_rejected:
  "snd (getObjects svc eng stores store keyRange reverse cast_op) = Rejected r \<Longrightarrow>
   forwarded r \<or> init_failure r"
  unfolding getObjects_def Let_def case_prod_beta
  by (auto dest!: thenP_rejected getTransaction_rejected getObjects_fold_rejected)

lemma getObjects_fold_filter:
  assumes "\<not> P Continue"
  shows "filter P (fst (foldl (getObjects_handlers fn) (cs, res, p) evs)) = filter P cs"
proof -
  obtain k where "fst (foldl (getObjects_handlers fn) (cs, res, p) evs) = cs @ replicate k Continue"
    using getObjects_fold_calls by blast
  then show ?thesis using assms by simp
qed

lemma getObjects_handle:
  assumes "\<And>c. is_operation c \<Longrightarrow> \<not> P c" "\<And>d s m. \<not> P (Transaction d s m)" "\<not> P Continue"
  shows "filter P (fst (getObjects svc eng stores store keyRange reverse cast_op)) =
     filter P (fst (init svc eng))"
  using assms
  by (simp add: getObjects_def thenP_filter getTransaction_filter Let_def case_prod_beta
      getObjects_fold_filter split: promise.splits)

section \<open>\<open>getObjectsByIndex\<close>\<close>

lemma getObjectsByIndex_visit:
  "foldl (getObjectsByIndex_handlers fn) (cs, res, p) (map (\<lambda>v. CursorSuccess 0 (Some v)) vs) =
     (cs @ replicate (length vs) Continue, res @ map fn vs, p)"
proof (induction vs arbitrary: cs res)
  case Nil
  show ?case by simp
next
  case (Cons v vs)
  show ?case
    using Cons.IH [of "cs @ [Continue]" "res @ [fn v]"] by (simp add: replicate_app_Cons_same)
qed

lemma getObjectsByIndex_step_cases:
  obtains k vs where
    "getObjectsByIndex_handlers fn (cs, res, p) ev = (cs @ replicate k Continue, res @ vs, p)"
  | "getObjectsByIndex_handlers fn (cs, res, p) ev = (cs, res, resolve res p)"
  | e where "getObjectsByIndex_handlers fn (cs, res, p) ev = (cs, res, reject (Event e) p)"
proof (cases "(fn, (cs, res, p), ev)" rule: getObjectsByIndex_handlers.cases)
  case (2 fn' cs' res' p' v)
  then show ?thesis using that(1) [of 1 "[fn v]"] by simp
qed (use that(1) [of 0 "[]"] that(2) that(3) in auto)


lemma getObjectsByIndex_fold_calls:
  "\<exists>k. fst (foldl (getObjectsByIndex_handlers fn) (cs, res, p) evs) = cs @ replicate k Continue"
proof (induction evs arbitrary: cs res p)
  case Nil
  show ?case by (rule exI [of _ 0]) simp
next
  case (Cons ev evs)
  show ?case
  proof (rule getObjectsByIndex_step_cases [of fn cs res p ev])
    fix k vs
    assume step: "getObjectsByIndex_handlers fn (cs, res, p) ev =
        (cs @ replicate k Continue, res @ vs, p)"
    obtain j where "fst (foldl (getObjectsByIndex_handlers fn)
          (cs @ replicate k Continue, res @ vs, p) evs) =
        (cs @ replicate k Continue) @ replicate j Continue"
      using Cons.IH by blast
    then show ?thesis
      using step by (intro exI [of _ "k + j"]) (simp add: replicate_add)
  qed (use Cons.IH in simp_all)
qed

lemma getObjectsByIndex_fold_filter:
  assumes "\<not> P Continue"
  shows "filter P (fst (foldl (getObjectsByIndex_handlers fn) (cs, res, p) evs)) = filter P cs"
proof -
  obtain k where
    "fst (foldl (getObjectsByIndex_handlers fn) (cs, res, p) evs) = cs @ replicate k Continue"
    using getObjectsByIndex_fold_calls by blast
  then show ?thesis using assms by simp
qed

lemma getObjectsByIndex_fold_rejected:
  "snd (snd (foldl (getObjectsByIndex_handlers fn) (cs, res, p) evs)) = Rejected r \<Longrightarrow>
   p = Rejected r \<or> forwarded r"
proof (induction evs arbitrary: cs res p)
  case Nil
  then show ?case by simp
next
  case (Cons ev evs)
  show ?case
    by (rule getObjectsByIndex_step_cases [of fn cs res p ev]; cases p)
       (use Cons.prems in \<open>auto dest: Cons.IH\<close>)
qed

lemma getObjectsByIndex_calls:
  "init svc eng = (cs, Resolved db) \<Longrightarrow>
   \<exists>k. fst (getObjectsByIndex svc eng stores store index rng reverse cast_op) =
     cs @ [Transaction db stores ReadOnly,
           IndexOpenCursor store index rng
             (getObjectsByIndex_direction (case reverse of None \<Rightarrow> False | Some b \<Rightarrow> b))]
        @ replicate k Continue"
  using getObjectsByIndex_fold_calls
    [of "case cast_op of None \<Rightarrow> cast | Some f \<Rightarrow> f"
        "[IndexOpenCursor store index rng
            (getObjectsByIndex_direction (case reverse of None \<Rightarrow> False | Some b \<Rightarrow> b))]"
        "[]" Pending "tx_events eng"]
  by (simp add: getObjectsByIndex_def getTransaction_Resolved Let_def case_prod_beta)

lemma getObjectsByIndex_exhausted:
  "init svc eng = (cs, Resolved db) \<Longrightarrow>
   getObjectsByIndex svc
       (eng\<lparr>tx_events := map (\<lambda>v. CursorSuccess 0 (Some v)) vs @ [CursorSuccess 0 None]\<rparr>)
       stores store index rng reverse cast_op =
     (cs @ [Transaction db stores ReadOnly,
            IndexOpenCursor store index rng
              (getObjectsByIndex_direction (case reverse of None \<Rightarrow> False | Some b \<Rightarrow> b))]
         @ replicate (length vs) Continue,
      Resolved (map (case cast_op of None \<Rightarrow> cast | Some f \<Rightarrow> f) vs))"
  by (simp add: getObjectsByIndex_def getTransaction_Resolved Let_def getObjectsByIndex_visit)

lemma getObjectsByIndex_tx_error:
  "init svc eng = (cs, Resolved db) \<Longrightarrow>
   getObjectsByIndex svc
       (eng\<lparr>tx_events := map (\<lambda>v. CursorSuccess 0 (Some v)) vs @ [TxError evt]\<rparr>)
       stores store index rng reverse cast_op =
     (cs @ [Transaction db stores ReadOnly,
            IndexOpenCursor store index rng
              (getObjectsByIndex_direction (case reverse of None \<Rightarrow> False | Some b \<Rightarrow> b))]
         @ replicate (length vs) Continue,
      Rejected (Event evt))"
  by (simp add: getObjectsByIndex_def getTransaction_Resolved Let_def getObjectsByIndex_visit)

lemma getObjectsByIndex_request_error:
  "init svc eng = (cs, Resolved db) \<Longrightarrow>
   getObjectsByIndex svc (eng\<lparr>tx_events := [Error 0 evt]\<rparr>)
       stores store index rng reverse cast_op =
     (cs @ [Transaction db stores ReadOnly,
            IndexOpenCursor store index rng
              (getObjectsByIndex_direction (case reverse of None \<Rightarrow> False | Some b \<Rightarrow> b))],
      Pending)"
  by (simp add: getObjectsByIndex_def getTransaction_Resolved Let_def)

lemma getObjectsByIndex_rejected:
  "snd (getObjectsByIndex svc eng stores store index rng reverse cast_op) = Rejected r \<Longrightarrow>
   forwarded r \<or> init_failure r"
  unfolding getObjectsByIndex_def Let_def case_prod_beta
  by (auto dest!: thenP_rejected getTransaction_rejected getObjectsByIndex_fold_rejected)

lemma getObjectsByIndex_handle:
  assumes "\<And>c. is_operation c \<Longrightarrow> \<not> P c" "\<And>d s m. \<not> P (Transaction d s m)" "\<not> P Continue"
  shows "filter P (fst (getObjectsByIndex svc eng stores store index rng reverse cast_op)) =
     filter P (fst (init svc eng))"
  using assms
  by (simp add: getObjectsByIndex_def thenP_filter getTransaction_filter Let_def case_prod_beta
      getObjectsByIndex_fold_filter split: promise.splits)

section \<open>\<open>removeObjectsByKey\<close> and \<open>clearStore\<close>\<close>

lemma removeObjectsByKey_settled:
  "p \<noteq> Pending \<Longrightarrow> foldl removeObjectsByKey_handlers p evs = p"
proof (induction evs)
  case Nil
  show ?case by simp
next
  case (Cons ev evs)
  have "removeObjectsByKey_handlers p ev = p"
    using Cons.prems
    by (cases "(p, ev)" rule: removeObjectsByKey_handlers.cases)
       (auto simp: resolve_settled reject_settled)
  then show ?case using Cons by simp
qed

lemma removeObjectsByKey_quiet:
  "Complete \<notin> set evs \<Longrightarrow> (\<forall>e. TxError e \<notin> set evs) \<Longrightarrow>
   foldl removeObjectsByKey_handlers p evs = p"
proof (induction evs)
  case Nil
  show ?case by simp
next
  case (Cons ev evs)
  have "removeObjectsByKey_handlers p ev = p"
    using Cons.prems by (cases "(p, ev)" rule: removeObjectsByKey_handlers.cases) auto
  then show ?case using Cons by simp
qed

lemma removeObjectsByKey_needs_complete:
  "foldl removeObjectsByKey_handlers p evs = Resolved () \<Longrightarrow> p = Resolved () \<or> Complete \<in> set evs"
proof (induction evs arbitrary: p)
  case Nil
  then show ?case by simp
next
  case (Cons ev evs)
  from Cons.prems have "removeObjectsByKey_handlers p ev = Resolved () \<or> Complete \<in> set evs"
    by (auto dest: Cons.IH)
  then show ?case
    by (cases "(p, ev)" rule: removeObjectsByKey_handlers.cases; cases p) auto
qed

lemma removeObjectsByKey_fold_rejected:
  "foldl removeObjectsByKey_handlers p evs = Rejected r \<Longrightarrow> p = Rejected r \<or> forwarded r"
proof (induction evs arbitrary: p)
  case Nil
  then show ?case by simp
next
  case (Cons ev evs)
  from Cons.prems have "removeObjectsByKey_handlers p ev = Rejected r \<or> forwarded r"
    by (auto dest: Cons.IH)
  then show ?case
    by (cases "(p, ev)" rule: removeObjectsByKey_handlers.cases; cases p) auto
qed

lemma removeObjectsByKey_calls:
  "init svc eng = (cs, Resolved db) \<Longrightarrow>
   fst (removeObjectsByKey svc eng stores store rng) =
     cs @ [Transaction db stores ReadWrite, Delete store rng]"
  by (simp add: removeObjectsByKey_def getTransaction_Resolved)

lemma removeObjectsByKey_complete:
  "init svc eng = (cs, Resolved db) \<Longrightarrow> Complete \<notin> set pre \<Longrightarrow> \<forall>e. TxError e \<notin> set pre \<Longrightarrow>
   removeObjectsByKey svc (eng\<lparr>tx_events := pre @ Complete # rest\<rparr>) stores store rng =
     (cs @ [Transaction db stores ReadWrite, Delete store rng], Resolved ())"
  by (simp add: removeObjectsByKey_def getTransaction_Resolved removeObjectsByKey_quiet
      removeObjectsByKey_settled)

lemma removeObjectsByKey_error:
  "init svc eng = (cs, Resolved db) \<Longrightarrow> Complete \<notin> set pre \<Longrightarrow> \<forall>e. TxError e \<notin> set pre \<Longrightarrow>
   removeObjectsByKey svc (eng\<lparr>tx_events := pre @ TxError evt # rest\<rparr>) stores store rng =
     (cs @ [Transaction db stores ReadWrite, Delete store rng], Rejected (Event evt))"
  by (simp add: removeObjectsByKey_def getTransaction_Resolved removeObjectsByKey_quiet
      removeObjectsByKey_settled)

lemma removeObjectsByKey_waiting:
  "init svc eng = (cs, Resolved db) \<Longrightarrow> Complete \<notin> set pre \<Longrightarrow> \<forall>e. TxError e \<notin> set pre \<Longrightarrow>
   removeObjectsByKey svc (eng\<lparr>tx_events := pre\<rparr>) stores store rng =
     (cs @ [Transaction db stores ReadWrite, Delete store rng], Pending)"
  by (simp add: removeObjectsByKey_def getTransaction_Resolved removeObjectsByKey_quiet)

lemma removeObjectsByKey_resolved:
  "snd (removeObjectsByKey svc eng stores store rng) = Resolved u \<Longrightarrow> Complete \<in> set (tx_events eng)"
  by (auto simp: removeObjectsByKey_def thenP_def split: promise.splits
      dest: removeObjectsByKey_needs_complete)

lemma removeObjectsByKey_rejected:
  "snd (removeObjectsByKey svc eng stores store rng) = Rejected r \<Longrightarrow> forwarded r \<or> init_failure r"
  unfolding removeObjectsByKey_def
  by (auto dest!: thenP_rejected getTransaction_rejected removeObjectsByKey_fold_rejected)

lemma removeObjectsByKey_handle:
  assumes "\<And>c. is_operation c \<Longrightarrow> \<not> P c" "\<And>d s m. \<not> P (Transaction d s m)"
  shows "filter P (fst (removeObjectsByKey svc eng stores store rng)) = filter P (fst (init svc eng))"
  using assms
  by (simp add: removeObjectsByKey_def thenP_filter getTransaction_filter split: promise.splits)

lemma clearStore_settled:
  "p \<noteq> Pending \<Longrightarrow> foldl clearStore_handlers p evs = p"
proof (induction evs)
  case Nil
  show ?case by simp
next
  case (Cons ev evs)
  have "clearStore_handlers p ev = p"
    using Cons.prems
    by (cases "(p, ev)" rule: clearStore_handlers.cases) (auto simp: resolve_settled reject_settled)
  then show ?case using Cons by simp
qed

lemma clearStore_fold_rejected:
  "foldl clearStore_handlers p evs = Rejected r \<Longrightarrow> p = Rejected r \<or> forwarded r"
proof (induction evs arbitrary: p)
  case Nil
  then show ?case by simp
next
  case (Cons ev evs)
  from Cons.prems have "clearStore_handlers p ev = Rejected r \<or> forwarded r"
    by (auto dest: Cons.IH)
  then show ?case
    by (cases "(p, ev)" rule: clearStore_handlers.cases; cases p) auto
qed

lemma clearStore_calls:
  "init svc eng = (cs, Resolved db) \<Longrightarrow>
   fst (clearStore svc eng store) = cs @ [Transaction db (Name store) ReadWrite, Clear store]"
  by (simp add: clearStore_def getTransaction_Resolved)

lemma clearStore_complete:
  "init svc eng = (cs, Resolved db) \<Longrightarrow>
   clearStore svc (eng\<lparr>tx_events := Success 0 r # Complete # rest\<rparr>) store =
     (cs @ [Transaction db (Name store) ReadWrite, Clear store], Resolved ())"
  by (simp add: clearStore_def getTransaction_Resolved clearStore_settled)

lemma clearStore_error:
  "init svc eng = (cs, Resolved db) \<Longrightarrow>
   clearStore svc (eng\<lparr>tx_events := Error 0 evt # TxError evt # rest\<rparr>) store =
     (cs @ [Transaction db (Name store) ReadWrite, Clear store], Rejected (Event evt))"
  by (simp add: clearStore_def getTransaction_Resolved clearStore_settled)

lemma clearStore_rejected:
  "snd (clearStore svc eng store) = Rejected r \<Longrightarrow> forwarded r \<or> init_failure r"
  unfolding clearStore_def
  by (auto dest!: thenP_rejected getTransaction_rejected clearStore_fold_rejected)

lemma clearStore_handle:
  assumes "\<And>c. is_operation c \<Longrightarrow> \<not> P c" "\<And>d s m. \<not> P (Transaction d s m)"
  shows "filter P (fst (clearStore svc eng store)) = filter P (fst (init svc eng))"
  using assms
  by (simp add: clearStore_def thenP_filter getTransaction_filter split: promise.splits)

section \<open>\<open>replaceObjectByKey\<close>\<close>

lemma replaceObjectByKey_step_cases:
  obtains "replaceObjectByKey_handlers store val (cs, p) ev = (cs, resolve val p)"
  | e where "replaceObjectByKey_handlers store val (cs, p) ev = (cs, reject (ErrorOf e) p)"
  | "replaceObjectByKey_handlers store val (cs, p) ev = (cs @ [Add store val], p)"
  | "replaceObjectByKey_handlers store val (cs, p) ev = (cs, p)"
  by (cases "(store, val, (cs, p), ev)" rule: replaceObjectByKey_handlers.cases) auto


lemma replaceObjectByKey_fold_calls:
  "\<exists>n. fst (foldl (replaceObjectByKey_handlers store val) (cs, p) evs) =
     cs @ replicate n (Add store val)"
proof (induction evs arbitrary: cs p)
  case Nil
  show ?case by (rule exI [of _ 0]) simp
next
  case (Cons ev evs)
  show ?case
  proof (rule replaceObjectByKey_step_cases [of store val cs p ev])
    assume step: "replaceObjectByKey_handlers store val (cs, p) ev = (cs @ [Add store val], p)"
    obtain n where "fst (foldl (replaceObjectByKey_handlers store val) (cs @ [Add store val], p) evs) =
        (cs @ [Add store val]) @ replicate n (Add store val)"
      using Cons.IH by blast
    then show ?thesis
      using step by (intro exI [of _ "Suc n"]) (simp add: replicate_app_Cons_same)
  qed (use Cons.IH in simp_all)
qed

lemma replaceObjectByKey_fold_filter:
  assumes "\<not> P (Add store val)"
  shows "filter P (fst (foldl (replaceObjectByKey_handlers store val) (cs, p) evs)) = filter P cs"
proof -
  obtain n where "fst (foldl (replaceObjectByKey_handlers store val) (cs, p) evs) =
      cs @ replicate n (Add store val)"
    using replaceObjectByKey_fold_calls [of store val cs p evs] by (elim exE)
  then show ?thesis using assms by simp
qed

lemma replaceObjectByKey_fold_rejected:
  "snd (foldl (replaceObjectByKey_handlers store val) (cs, p) evs) = Rejected r \<Longrightarrow>
   p = Rejected r \<or> (\<exists>e. r = ErrorOf e)"
proof (induction evs arbitrary: cs p)
  case Nil
  then show ?case by simp
next
  case (Cons ev evs)
  show ?case
    by (rule replaceObjectByKey_step_cases [of store val cs p ev]; cases p)
       (use Cons.prems in \<open>auto dest: Cons.IH\<close>)
qed

lemma replaceObjectByKey_undefined_key:
  "replaceObjectByKey svc eng store None val =
     ([], Rejected (JsError ''updateByIndex() needs a key value!''))"
  by (simp add: replaceObjectByKey_def)

lemma replaceObjectByKey_calls:
  "init svc eng = (cs, Resolved db) \<Longrightarrow>
   \<exists>n. fst (replaceObjectByKey svc eng store (Some k) val) =
     cs @ [Transaction db (Name store) ReadWrite, Delete store k] @ replicate n (Add store val)"
  using replaceObjectByKey_fold_calls [of store val "[Delete store k]" Pending "tx_events eng"]
  by (simp add: replaceObjectByKey_def getTransaction_Resolved)


lemma replaceObjectByKey_error:
  "init svc eng = (cs, Resolved db) \<Longrightarrow>
   replaceObjectByKey svc (eng\<lparr>tx_events := [Error 0 evt, TxError evt]\<rparr>) store (Some k) val =
     (cs @ [Transaction db (Name store) ReadWrite, Delete store k], Rejected (ErrorOf evt))"
  by (simp add: replaceObjectByKey_def getTransaction_Resolved)

lemma replaceObjectByKey_rejected:
  "snd (replaceObjectByKey svc eng store key val) = Rejected r \<Longrightarrow>
   forwarded r \<or> (\<exists>e. r = ErrorOf e) \<or> init_failure r \<or>
   r = JsError ''updateByIndex() needs a key value!''"
  unfolding replaceObjectByKey_def
  by (auto split: option.splits
      dest!: thenP_rejected getTransaction_rejected replaceObjectByKey_fold_rejected)

lemma replaceObjectByKey_handle:
  assumes "\<And>c. is_operation c \<Longrightarrow> \<not> P c" "\<And>d s m. \<not> P (Transaction d s m)"
  shows "filter P (fst (replaceObjectByKey svc eng store (Some k) val)) = filter P (fst (init svc eng))"
  using assms
  by (simp add: replaceObjectByKey_def thenP_filter getTransaction_filter
      replaceObjectByKey_fold_filter split: promise.splits)

section \<open>\<open>Promise.all\<close>\<close>

lemma fulfilled_iff: "fulfilled ps = Some vs \<longleftrightarrow> ps = map Resolved vs"
proof (induction ps arbitrary: vs)
  case Nil
  show ?case by auto
next
  case (Cons p ps)
  show ?case
  proof (cases p)
    case (Resolved a)
    then show ?thesis using Cons [of "tl vs"] by (cases vs) (auto split: option.splits)
  qed (cases vs; simp)+
qed

lemma first_rejection_mem: "first_rejection ps = Some r \<Longrightarrow> Rejected r \<in> set ps"
  by (induction ps rule: first_rejection.induct) auto

lemma first_rejection_None: "(\<forall>r. Rejected r \<notin> set ps) \<Longrightarrow> first_rejection ps = None"
  by (induction ps rule: first_rejection.induct) auto



lemma promise_all_Resolved:
  "promise_all cur ps = Resolved vs \<Longrightarrow> cur = Resolved vs \<or> ps = map Resolved vs"
  by (auto simp: promise_all_def fulfilled_iff split: promise.splits option.splits)

lemma promise_all_Rejected:
  "promise_all cur ps = Rejected r \<Longrightarrow> cur = Rejected r \<or> Rejected r \<in> set ps"
  by (auto simp: promise_all_def split: promise.splits option.splits dest: first_rejection_mem)


lemma promise_all2_Resolved:
  "promise_all2 cur a b = Resolved xy \<Longrightarrow> cur = Resolved xy \<or> (a = Resolved (fst xy) \<and> b = Resolved (snd xy))"
  by (auto simp: promise_all2_def split: promise.splits)

lemma promise_all2_Rejected:
  "promise_all2 cur a b = Rejected r \<Longrightarrow> cur = Rejected r \<or> a = Rejected r \<or> b = Rejected r"
  by (auto simp: promise_all2_def split: promise.splits)

section \<open>\<open>storeObjects\<close>\<close>

lemma storeObjects_requests_length [simp]:
  "length (storeObjects_requests ev reqs) = length reqs"
  by (cases "(ev, reqs)" rule: storeObjects_requests.cases) simp_all

lemma storeObjects_requests_Resolved:
  "n < length reqs \<Longrightarrow> storeObjects_requests ev reqs ! n = Resolved () \<Longrightarrow>
   reqs ! n = Resolved () \<or> (\<exists>r. ev = Success n r)"
  by (cases "(ev, reqs)" rule: storeObjects_requests.cases; cases "reqs ! n")
     (auto simp: nth_list_update split: if_splits)

lemma storeObjects_requests_Rejected:
  "n < length reqs \<Longrightarrow> storeObjects_requests ev reqs ! n = Rejected r \<Longrightarrow>
   reqs ! n = Rejected r \<or> forwarded r"
  by (cases "(ev, reqs)" rule: storeObjects_requests.cases; cases "reqs ! n")
     (auto simp: nth_list_update split: if_splits)

lemma storeObjects_promiseA_Resolved:
  "storeObjects_promiseA data ev a = Resolved x \<Longrightarrow> a = Resolved x \<or> (ev = Complete \<and> x = data)"
  by (cases "(data, ev, a)" rule: storeObjects_promiseA.cases; cases a) auto

lemma storeObjects_promiseA_Rejected:
  "storeObjects_promiseA data ev a = Rejected r \<Longrightarrow> a = Rejected r \<or> forwarded r"
  by (cases "(data, ev, a)" rule: storeObjects_promiseA.cases; cases a) auto

lemma first_rejection_start: "first_rejection (map (\<lambda>d. Pending) data) = None"
  by (induction data) simp_all

lemma promise_all_start:
  "promise_all Pending (map (\<lambda>d. Pending) data) = (if data = [] then Resolved [] else Pending)"
  by (cases data) (simp_all add: promise_all_def first_rejection_start)

lemma storeObjects_inv_start: "storeObjects_inv data [] (storeObjects_start data)"
  by (simp add: storeObjects_inv_def storeObjects_start_def Let_def promise_all_start promise_all2_def)

lemma storeObjects_inv_step:
  assumes "storeObjects_inv data evs s"
  shows "storeObjects_inv data (evs @ [ev]) (storeObjects_handlers data s ev)"
proof -
  obtain reqs a b both where s: "s = (reqs, a, b, both)"
    by (cases s) auto
  define reqs' where "reqs' = storeObjects_requests ev reqs"
  define a' where "a' = storeObjects_promiseA data ev a"
  define b' where "b' = promise_all b reqs'"
  define both' where "both' = promise_all2 both a' b'"
  have step: "storeObjects_handlers data s ev = (reqs', a', b', both')"
    by (simp add: s reqs'_def a'_def b'_def both'_def Let_def)
  from assms have len: "length reqs = length data"
    and req_ok: "\<And>n. n < length data \<Longrightarrow> reqs ! n = Resolved () \<Longrightarrow> \<exists>r. Success n r \<in> set evs"
    and req_bad: "\<And>n r. n < length data \<Longrightarrow> reqs ! n = Rejected r \<Longrightarrow> forwarded r"
    and a_ok: "\<And>x. a = Resolved x \<Longrightarrow> x = data \<and> Complete \<in> set evs"
    and a_bad: "\<And>r. a = Rejected r \<Longrightarrow> forwarded r"
    and b_ok: "\<And>ys n. b = Resolved ys \<Longrightarrow> n < length data \<Longrightarrow> \<exists>r. Success n r \<in> set evs"
    and b_bad: "\<And>r. b = Rejected r \<Longrightarrow> forwarded r"
    and both_ok: "\<And>x y. both = Resolved (x, y) \<Longrightarrow>
        x = data \<and> Complete \<in> set evs \<and> (\<forall>n<length data. \<exists>r. Success n r \<in> set evs)"
    and both_bad: "\<And>r. both = Rejected r \<Longrightarrow> forwarded r"
    unfolding storeObjects_inv_def s prod.case by blast+
  have len': "length reqs' = length data"
    by (simp add: reqs'_def len)
  have req_ok': "\<exists>r. Success n r \<in> set (evs @ [ev])" if "n < length data" "reqs' ! n = Resolved ()" for n
    using storeObjects_requests_Resolved [of n reqs ev] that req_ok [of n]
    by (auto simp: reqs'_def len)
  have req_bad': "forwarded r" if "n < length data" "reqs' ! n = Rejected r" for n r
    using storeObjects_requests_Rejected [of n reqs ev r] that req_bad [of n r]
    by (auto simp: reqs'_def len)
  have a_ok': "x = data \<and> Complete \<in> set (evs @ [ev])" if "a' = Resolved x" for x
    using storeObjects_promiseA_Resolved [of data ev a x] that a_ok [of x]
    by (auto simp: a'_def)
  have a_bad': "forwarded r" if "a' = Rejected r" for r
    using storeObjects_promiseA_Rejected [of data ev a r] that a_bad [of r]
    by (auto simp: a'_def)
  have b_ok': "\<exists>r. Success n r \<in> set (evs @ [ev])" if "b' = Resolved ys" "n < length data" for ys n
  proof -
    from that(1) consider "b = Resolved ys" | "reqs' = map Resolved ys"
      using promise_all_Resolved [of b reqs' ys] by (auto simp: b'_def)
    then show ?thesis
    proof cases
      case 1
      then show ?thesis using b_ok [of ys n] that(2) by auto
    next
      case 2
      then have "reqs' ! n = Resolved ()"
        using that(2) len' by (metis length_map nth_map old.unit.exhaust)
      then show ?thesis using req_ok' that(2) by blast
    qed
  qed
  have b_bad': "forwarded r" if "b' = Rejected r" for r
  proof -
    from that consider "b = Rejected r" | "Rejected r \<in> set reqs'"
      using promise_all_Rejected [of b reqs' r] by (auto simp: b'_def)
    then show ?thesis
    proof cases
      case 1
      then show ?thesis by (rule b_bad)
    next
      case 2
      then obtain n where "n < length reqs'" "reqs' ! n = Rejected r"
        by (auto simp: in_set_conv_nth)
      then show ?thesis using req_bad' [of n r] len' by simp
    qed
  qed
  have both_ok': "x = data \<and> Complete \<in> set (evs @ [ev]) \<and>
      (\<forall>n<length data. \<exists>r. Success n r \<in> set (evs @ [ev]))" if "both' = Resolved (x, y)" for x y
  proof -
    from that consider "both = Resolved (x, y)" | "a' = Resolved x" "b' = Resolved y"
      using promise_all2_Resolved [of both a' b' "(x, y)"] by (auto simp: both'_def)
    then show ?thesis
    proof cases
      case 1
      then show ?thesis using both_ok [of x y] by auto
    next
      case 2
      then show ?thesis using a_ok' [of x] b_ok' [of y] by blast
    qed
  qed
  have both_bad': "forwarded r" if "both' = Rejected r" for r
    using promise_all2_Rejected [of both a' b' r] that both_bad [of r] a_bad' [of r] b_bad' [of r]
    by (auto simp: both'_def)
  show ?thesis
    unfolding step storeObjects_inv_def prod.case
    using len' req_ok' req_bad' a_ok' a_bad' b_ok' b_bad' both_ok' both_bad' by blast
qed

lemma storeObjects_inv_fold:
  "storeObjects_inv data evs (foldl (storeObjects_handlers data) (storeObjects_start data) evs)"
proof (induction evs rule: rev_induct)
  case Nil
  show ?case by (simp add: storeObjects_inv_start)
next
  case (snoc ev evs)
  then show ?case using storeObjects_inv_step [of data evs _ ev] by simp
qed



lemma storeObjects_rejected:
  assumes "storeObjects svc eng store data = (calls, Rejected r)"
  shows "forwarded r \<or> init_failure r"
proof -
  obtain reqs a b both where
    f: "foldl (storeObjects_handlers data) (storeObjects_start data) (tx_events eng) = (reqs, a, b, both)"
    using prod_cases4 by blast
  from assms have "forwarded r \<or> init_failure r \<or> both = Rejected r"
    unfolding storeObjects_def
    by (auto simp: f split: promise.splits dest!: thenP_rejected_pair getTransaction_rejected)
  then show ?thesis
    using storeObjects_inv_fold [of data "tx_events eng"]
    unfolding f storeObjects_inv_def prod.case by blast
qed

lemma storeObjects_handle:
  assumes "\<And>c. is_operation c \<Longrightarrow> \<not> P c" "\<And>d s m. \<not> P (Transaction d s m)"
  shows "filter P (fst (storeObjects svc eng store data)) = filter P (fst (init svc eng))"
  using assms
  by (simp add: storeObjects_def thenP_filter getTransaction_filter filter_empty_conv
      split: promise.splits)











section \<open>\<open>updateObjectsByIndex\<close>\<close>

lemma settle_all_fold:
  "\<exists>p. foldl (\<lambda>s n. case fulfilled (take n (u_promises s)) of
                        None \<Rightarrow> s
                      | Some vals \<Rightarrow> s\<lparr> u_promiseA := resolve (Multiple vals) (u_promiseA s) \<rparr>) s ns =
         s\<lparr> u_promiseA := p \<rparr> \<and>
       (\<forall>r. p = Rejected r \<longrightarrow> u_promiseA s = Rejected r) \<and>
       (ns = [] \<longrightarrow> p = u_promiseA s)"
proof (induction ns arbitrary: s)
  case Nil
  show ?case by (rule exI [of _ "u_promiseA s"]) simp
next
  case (Cons n ns)
  show ?case
  proof (cases "fulfilled (take n (u_promises s))")
    case None
    then show ?thesis using Cons [of s] by auto
  next
    case (Some vals)
    obtain p where p: "foldl (\<lambda>s n. case fulfilled (take n (u_promises s)) of
                        None \<Rightarrow> s
                      | Some vals \<Rightarrow> s\<lparr> u_promiseA := resolve (Multiple vals) (u_promiseA s) \<rparr>)
          (s\<lparr> u_promiseA := resolve (Multiple vals) (u_promiseA s) \<rparr>) ns =
         s\<lparr> u_promiseA := resolve (Multiple vals) (u_promiseA s) \<rparr>\<lparr> u_promiseA := p \<rparr>"
      and r: "\<forall>r. p = Rejected r \<longrightarrow> resolve (Multiple vals) (u_promiseA s) = Rejected r"
      using Cons [of "s\<lparr> u_promiseA := resolve (Multiple vals) (u_promiseA s) \<rparr>"] by auto
    have "\<forall>r. p = Rejected r \<longrightarrow> u_promiseA s = Rejected r"
      using r by (cases "u_promiseA s") auto
    then show ?thesis
      using Some p by (intro exI [of _ p]) simp
  qed
qed

lemma settle_all_cases:
  obtains p where "settle_all s = s\<lparr> u_promiseA := p \<rparr>"
    "\<And>r. p = Rejected r \<Longrightarrow> u_promiseA s = Rejected r"
    "u_alls s = [] \<Longrightarrow> p = u_promiseA s"
  using settle_all_fold [of s "u_alls s"] unfolding settle_all_def by blast

lemma updateOne_cases:
  obtains "updateOne store params v s = s"
  | new where "updateOne store params v s =
      s\<lparr> u_calls := u_calls s @ [Put store new], u_promises := u_promises s @ [Pending],
         u_olds := u_olds s @ [new] \<rparr>"
  by (cases v) (auto simp: updateOne_def Let_def)

lemma settle_all_fields [simp]:
  "u_calls (settle_all s) = u_calls s"
  "u_promiseB (settle_all s) = u_promiseB s"
  "u_alls (settle_all s) = u_alls s"
  "u_promises (settle_all s) = u_promises s"
proof -
  obtain p where "settle_all s = s\<lparr> u_promiseA := p \<rparr>"
    using settle_all_cases [of s] by blast
  then show "u_calls (settle_all s) = u_calls s" "u_promiseB (settle_all s) = u_promiseB s"
    "u_alls (settle_all s) = u_alls s" "u_promises (settle_all s) = u_promises s"
    by simp_all
qed

lemma settle_all_promiseA:
  "u_promiseA (settle_all s) = Rejected r \<Longrightarrow> u_promiseA s = Rejected r"
  "u_alls s = [] \<Longrightarrow> u_promiseA (settle_all s) = u_promiseA s"
proof -
  obtain p where p: "settle_all s = s\<lparr> u_promiseA := p \<rparr>"
    "\<And>r. p = Rejected r \<Longrightarrow> u_promiseA s = Rejected r"
    "u_alls s = [] \<Longrightarrow> p = u_promiseA s"
    using settle_all_cases [of s] by blast
  show "u_promiseA (settle_all s) = Rejected r \<Longrightarrow> u_promiseA s = Rejected r"
    using p(2) [of r] by (simp add: p(1))
  show "u_alls s = [] \<Longrightarrow> u_promiseA (settle_all s) = u_promiseA s"
    using p(3) by (simp add: p(1))
qed

lemma updateOne_fields [simp]:
  "u_promiseA (updateOne store params v s) = u_promiseA s"
  "u_promiseB (updateOne store params v s) = u_promiseB s"
  "u_alls (updateOne store params v s) = u_alls s"
  by (cases v; simp add: updateOne_def Let_def)+

lemma updateOne_calls:
  "\<exists>vs. u_calls (updateOne store params v s) = u_calls s @ map (\<lambda>v. Put store v) vs"
proof (rule updateOne_cases [of store params v s])
  assume "updateOne store params v s = s"
  then show ?thesis by (intro exI [of _ "[]"]) simp
next
  fix new
  assume "updateOne store params v s =
      s\<lparr> u_calls := u_calls s @ [Put store new], u_promises := u_promises s @ [Pending],
         u_olds := u_olds s @ [new] \<rparr>"
  then show ?thesis by (intro exI [of _ "[new]"]) simp
qed

lemma put_onerror_fields [simp]:
  "u_calls (put_onerror n evt s) = u_calls s"
  "u_promiseA (put_onerror n evt s) = u_promiseA s"
  "u_promiseB (put_onerror n evt s) = u_promiseB s"
  "u_alls (put_onerror n evt s) = u_alls s"
  by (simp_all add: put_onerror_def)

lemma put_onsuccess_fields [simp]:
  "u_calls (put_onsuccess allMatches n s) = u_calls s"
  "u_promiseB (put_onsuccess allMatches n s) = u_promiseB s"
  "u_alls (put_onsuccess allMatches n s) = u_alls s"
  by (simp_all add: put_onsuccess_def Let_def split: promise.splits)

lemma resolve_Rejected: "resolve x q = Rejected r \<Longrightarrow> q = Rejected r"
  by (cases q) auto

lemma put_onsuccess_promiseA:
  "u_promiseA (put_onsuccess allMatches n s) = Rejected r \<Longrightarrow> u_promiseA s = Rejected r"
  "allMatches \<Longrightarrow> u_alls s = [] \<Longrightarrow> u_promiseA (put_onsuccess allMatches n s) = u_promiseA s"
proof -
  show "u_promiseA (put_onsuccess allMatches n s) = Rejected r \<Longrightarrow> u_promiseA s = Rejected r"
    by (auto simp: put_onsuccess_def Let_def split: promise.splits if_splits
        dest!: settle_all_promiseA(1) resolve_Rejected)
  show "allMatches \<Longrightarrow> u_alls s = [] \<Longrightarrow> u_promiseA (put_onsuccess allMatches n s) = u_promiseA s"
    by (simp add: put_onsuccess_def Let_def settle_all_promiseA(2) split: promise.splits)
qed

text \<open>
  What a handler can do to the state: it adds \<open>put\<close> calls, it never rejects
  \<open>promiseA\<close> or \<open>promiseB\<close>, and unless it is the handler of the null cursor it
  leaves \<open>promiseA\<close> pending when no \<open>Promise.all(promises)\<close> has been called.
\<close>

lemma updateObjectsByIndex_step_calls:
  "\<exists>vs. u_calls (updateObjectsByIndex_handlers store params allMatches s ev) =
     u_calls s @ map (\<lambda>v. Put store v) vs"
proof (cases "(store, params, allMatches, s, ev)" rule: updateObjectsByIndex_handlers.cases)
  case (1 store' params' allMatches' s0 v)
  then show ?thesis using updateOne_calls [of store params v s] by (cases allMatches) auto
next
  case (3 store' params' allMatches' s0 r0)
  then show ?thesis using updateOne_calls [of store params r0 s] by (cases allMatches) auto
qed auto

lemma updateObjectsByIndex_step_promiseA:
  "u_promiseA (updateObjectsByIndex_handlers store params allMatches s ev) = Rejected r \<Longrightarrow>
   u_promiseA s = Rejected r"
  by (cases "(store, params, allMatches, s, ev)" rule: updateObjectsByIndex_handlers.cases)
     (auto split: if_splits dest!: settle_all_promiseA(1) put_onsuccess_promiseA(1))

lemma updateObjectsByIndex_step_promiseB:
  "u_promiseB (updateObjectsByIndex_handlers store params allMatches s ev) = Rejected r \<Longrightarrow>
   u_promiseB s = Rejected r"
  by (cases "(store, params, allMatches, s, ev)" rule: updateObjectsByIndex_handlers.cases)
     (auto split: if_splits dest!: resolve_Rejected)

lemma updateObjectsByIndex_step_stall:
  "allMatches \<Longrightarrow> ev \<noteq> CursorSuccess 0 None \<Longrightarrow> u_alls s = [] \<Longrightarrow> u_promiseA s = Pending \<Longrightarrow>
   u_alls (updateObjectsByIndex_handlers store params allMatches s ev) = [] \<and>
   u_promiseA (updateObjectsByIndex_handlers store params allMatches s ev) = Pending"
  by (cases "(store, params, allMatches, s, ev)" rule: updateObjectsByIndex_handlers.cases)
     (auto simp: put_onsuccess_promiseA(2))

lemma updateObjectsByIndex_fold_calls:
  "\<exists>vs. u_calls (foldl (updateObjectsByIndex_handlers store params allMatches) s evs) =
     u_calls s @ map (\<lambda>v. Put store v) vs"
proof (induction evs arbitrary: s)
  case Nil
  show ?case by (rule exI [of _ "[]"]) simp
next
  case (Cons ev evs)
  obtain vs where vs: "u_calls (updateObjectsByIndex_handlers store params allMatches s ev) =
      u_calls s @ map (\<lambda>v. Put store v) vs"
    using updateObjectsByIndex_step_calls [of store params allMatches s ev] by (elim exE)
  obtain ws where "u_calls (foldl (updateObjectsByIndex_handlers store params allMatches)
        (updateObjectsByIndex_handlers store params allMatches s ev) evs) =
      u_calls (updateObjectsByIndex_handlers store params allMatches s ev) @ map (\<lambda>v. Put store v) ws"
    using Cons [of "updateObjectsByIndex_handlers store params allMatches s ev"] by (elim exE)
  then show ?case
    using vs by (intro exI [of _ "vs @ ws"]) simp
qed

lemma updateObjectsByIndex_fold_filter:
  assumes "\<And>v. \<not> P (Put store v)"
  shows "filter P (u_calls (foldl (updateObjectsByIndex_handlers store params allMatches) s evs)) =
     filter P (u_calls s)"
proof -
  obtain vs where "u_calls (foldl (updateObjectsByIndex_handlers store params allMatches) s evs) =
      u_calls s @ map (\<lambda>v. Put store v) vs"
    using updateObjectsByIndex_fold_calls [of store params allMatches s evs] by (elim exE)
  then show ?thesis using assms by (simp add: filter_empty_conv)
qed

lemma updateObjectsByIndex_fold_promiseA:
  "u_promiseA (foldl (updateObjectsByIndex_handlers store params allMatches) s evs) = Rejected r \<Longrightarrow>
   u_promiseA s = Rejected r"
  by (induction evs arbitrary: s) (auto dest: updateObjectsByIndex_step_promiseA)

lemma updateObjectsByIndex_fold_promiseB:
  "u_promiseB (foldl (updateObjectsByIndex_handlers store params allMatches) s evs) = Rejected r \<Longrightarrow>
   u_promiseB s = Rejected r"
  by (induction evs arbitrary: s) (auto dest: updateObjectsByIndex_step_promiseB)

lemma updateObjectsByIndex_fold_stall:
  "allMatches \<Longrightarrow> CursorSuccess 0 None \<notin> set evs \<Longrightarrow> u_alls s = [] \<Longrightarrow> u_promiseA s = Pending \<Longrightarrow>
   u_promiseA (foldl (updateObjectsByIndex_handlers store params allMatches) s evs) = Pending"
proof (induction evs arbitrary: s)
  case Nil
  then show ?case by simp
next
  case (Cons ev evs)
  have "u_alls (updateObjectsByIndex_handlers store params allMatches s ev) = [] \<and>
      u_promiseA (updateObjectsByIndex_handlers store params allMatches s ev) = Pending"
    using Cons.prems by (intro updateObjectsByIndex_step_stall) auto
  then show ?case using Cons by simp
qed

lemma all2_never_rejected:
  "(\<And>r. a \<noteq> Rejected r) \<Longrightarrow> (\<And>r. b \<noteq> Rejected r) \<Longrightarrow> promise_all2 Pending a b \<noteq> Rejected r"
  by (cases a; cases b) (simp_all add: promise_all2_def)

lemma updateObjectsByIndex_no_params:
  "updateObjectsByIndex svc eng store index indexVal [] allMatches =
     ([], Rejected (JsError ''updateByIndex() needs at least one PutParams''))"
  by (simp add: updateObjectsByIndex_def)

lemma updateObjectsByIndex_no_index:
  "updateObjectsByIndex svc eng store None indexVal (param # params) allMatches =
     ([], Rejected (JsError ''updateByProperty() needs index of the value!''))"
  by (simp add: updateObjectsByIndex_def)


lemma updateObjectsByIndex_then_never_rejected:
  fixes s0 :: "('k, 'p, 'db, 'e) update_state"
  assumes "u_promiseA s0 = Pending" "u_promiseB s0 = Pending"
  shows "promise_all2 Pending
      (u_promiseA (foldl (updateObjectsByIndex_handlers store params am) s0 evs))
      (u_promiseB (foldl (updateObjectsByIndex_handlers store params am) s0 evs)) \<noteq> Rejected r"
proof (rule all2_never_rejected)
  fix q
  show "u_promiseA (foldl (updateObjectsByIndex_handlers store params am) s0 evs) \<noteq> Rejected q"
    using updateObjectsByIndex_fold_promiseA [of store params am s0 evs q] assms by auto
  show "u_promiseB (foldl (updateObjectsByIndex_handlers store params am) s0 evs) \<noteq> Rejected q"
    using updateObjectsByIndex_fold_promiseB [of store params am s0 evs q] assms by auto
qed

lemma updateObjectsByIndex_never_rejected:
  fixes cs :: "('k, 'p obj, 'db) call list" and indexVal :: 'k
    and eng :: "('db, 'p obj option, 'e) engine"
  assumes "init svc eng = (cs, Resolved db)"
  shows "snd (updateObjectsByIndex svc eng store index indexVal params allMatches) = Rejected r \<longleftrightarrow>
     (params = [] \<and> r = JsError ''updateByIndex() needs at least one PutParams'') \<or>
     (params \<noteq> [] \<and> index = None \<and> r = JsError ''updateByProperty() needs index of the value!'')"
proof (cases "params = []")
  case True
  then show ?thesis by (auto simp: updateObjectsByIndex_def)
next
  case False
  show ?thesis
  proof (cases index)
    case None
    then show ?thesis using False by (auto simp: updateObjectsByIndex_def)
  next
    case (Some idx)
    show ?thesis
      using False Some assms
      by (auto simp: updateObjectsByIndex_def Let_def getTransaction_Resolved
          updateObjectsByIndex_then_never_rejected split: promise.splits)
  qed
qed

lemma updateObjectsByIndex_rejected:
  assumes "snd (updateObjectsByIndex svc eng store index indexVal params allMatches) = Rejected r"
  shows "forwarded r \<or> init_failure r \<or>
     r = JsError ''updateByIndex() needs at least one PutParams'' \<or>
     r = JsError ''updateByProperty() needs index of the value!''"
proof (cases "params = []")
  case True
  then show ?thesis using assms by (auto simp: updateObjectsByIndex_def)
next
  case False
  show ?thesis
  proof (cases index)
    case None
    then show ?thesis using False assms by (auto simp: updateObjectsByIndex_def)
  next
    case (Some idx)
    show ?thesis
      using False Some assms
      by (auto simp: updateObjectsByIndex_def Let_def updateObjectsByIndex_then_never_rejected
          split: promise.splits dest!: thenP_rejected getTransaction_rejected)
  qed
qed

lemma updateObjectsByIndex_handle:
  assumes "\<And>c. is_operation c \<Longrightarrow> \<not> P c" "\<And>d s m. \<not> P (Transaction d s m)"
  shows "filter P (fst (updateObjectsByIndex svc eng store (Some idx) indexVal (param # params) allMatches)) =
     filter P (fst (init svc eng))"
  using assms
  by (simp add: updateObjectsByIndex_def thenP_filter getTransaction_filter Let_def
      updateObjectsByIndex_fold_filter split: promise.splits)

lemma updateObjectsByIndex_one:
  assumes "init svc eng = (cs, Resolved db)"
  shows "updateObjectsByIndex svc (eng\<lparr>tx_events := [Success 0 (Some ob), Success 1 r, Complete]\<rparr>)
       store (Some idx) indexVal (param # params) None =
     (cs @ [Transaction db (Name store) ReadWrite, IndexGet store idx indexVal,
            Put store (fold (\<lambda>param ob. AList.update (p_name param) (p_value param) ob)
              (param # params) ob)],
      Resolved [Single (fold (\<lambda>param ob. AList.update (p_name param) (p_value param) ob)
              (param # params) ob)])"
  using assms
  by (simp add: updateObjectsByIndex_def getTransaction_Resolved Let_def updateOne_def
      put_onsuccess_def promise_all2_def)

lemma updateObjectsByIndex_put_error:
  assumes "init svc eng = (cs, Resolved db)"
  shows "updateObjectsByIndex svc (eng\<lparr>tx_events := [Success 0 (Some ob), Error 1 evt, TxError evt]\<rparr>)
       store (Some idx) indexVal (param # params) None =
     (cs @ [Transaction db (Name store) ReadWrite, IndexGet store idx indexVal,
            Put store (fold (\<lambda>param ob. AList.update (p_name param) (p_value param) ob)
              (param # params) ob)],
      Pending)"
  using assms
  by (simp add: updateObjectsByIndex_def getTransaction_Resolved Let_def updateOne_def
      put_onerror_def promise_all2_def)

lemma updateObjectsByIndex_no_match:
  assumes "init svc eng = (cs, Resolved db)"
  shows "updateObjectsByIndex svc (eng\<lparr>tx_events := [CursorSuccess 0 None, Complete]\<rparr>)
       store (Some idx) indexVal (param # params) (Some True) =
     (cs @ [Transaction db (Name store) ReadWrite, IndexOpenCursor store idx (Some indexVal) None],
      Resolved [Multiple []])"
  using assms
  by (simp add: updateObjectsByIndex_def getTransaction_Resolved Let_def settle_all_def
      promise_all2_def)

lemma updateObjectsByIndex_stalls:
  fixes cs :: "('k, 'p obj, 'db) call list" and indexVal :: 'k
    and eng :: "('db, 'p obj option, 'e) engine"
  assumes "init svc eng = (cs, Resolved db)" "CursorSuccess 0 None \<notin> set (tx_events eng)"
  shows "snd (updateObjectsByIndex svc eng store (Some idx) indexVal (param # params) (Some True)) =
     Pending"
  using assms
  by (auto simp: updateObjectsByIndex_def getTransaction_Resolved Let_def
      updateObjectsByIndex_fold_stall promise_all2_def split: promise.splits
      dest: updateObjectsByIndex_fold_promiseB)

lemma updateObjectsByIndex_no_continue:
  assumes "init svc eng = (cs, Resolved db)"
  shows "filter (\<lambda>c. c = Continue)
       (fst (updateObjectsByIndex svc eng store (Some idx) indexVal (param # params) allMatches)) =
     filter (\<lambda>c. c = Continue) cs"
  using assms
  by (simp add: updateObjectsByIndex_def getTransaction_Resolved Let_def
      updateObjectsByIndex_fold_filter)

section \<open>Which event settles the promise\<close>

























section \<open>Calls that the engine refuses\<close>

lemma attempt_accepted:
  "\<forall>c\<in>set cs. throws c = None \<Longrightarrow> attempt throws cs = (cs, None)"
  by (induction cs) simp_all



lemma try_calls_accepted:
  "\<forall>c\<in>set cs. throws c = None \<Longrightarrow> try_calls throws cs run = run"
  by (simp add: try_calls_def attempt_accepted)




lemma getTransaction_throwing_Resolved:
  "init svc eng = (cs, Resolved db) \<Longrightarrow>
   throws (Transaction db stores (case mode of None \<Rightarrow> ReadOnly | Some m \<Rightarrow> m)) = None \<Longrightarrow>
   getTransaction_throwing throws svc eng stores mode =
     (cs @ [Transaction db stores (case mode of None \<Rightarrow> ReadOnly | Some m \<Rightarrow> m)],
      Resolved (Trans db stores (case mode of None \<Rightarrow> ReadOnly | Some m \<Rightarrow> m)))"
  by (simp add: getTransaction_throwing_def Let_def thenP_def try_calls_accepted)























lemma getObjects_throwing_refused:
  assumes "init svc eng = (cs, Resolved db)"
    and "throws (Transaction db (stores) ReadOnly) = None"
    and "throws (OpenCursor store keyRange (getObjects_direction (case reverse of None \<Rightarrow> False | Some b \<Rightarrow> b))) = Some x"
  shows "getObjects_throwing throws svc eng stores store keyRange reverse cast_op =
     (cs @ [Transaction db (stores) ReadOnly, OpenCursor store keyRange (getObjects_direction (case reverse of None \<Rightarrow> False | Some b \<Rightarrow> b))], Rejected (Thrown x))"
  using getTransaction_throwing_Resolved [OF assms(1), of throws "stores" None] assms(2,3)
  by (simp add: getObjects_throwing_def thenP_def Let_def try_calls_def)


lemma getObjectsByIndex_throwing_refused:
  assumes "init svc eng = (cs, Resolved db)"
    and "throws (Transaction db (stores) ReadOnly) = None"
    and "throws (IndexOpenCursor store index rng (getObjectsByIndex_direction (case reverse of None \<Rightarrow> False | Some b \<Rightarrow> b))) = Some x"
  shows "getObjectsByIndex_throwing throws svc eng stores store index rng reverse cast_op =
     (cs @ [Transaction db (stores) ReadOnly, IndexOpenCursor store index rng (getObjectsByIndex_direction (case reverse of None \<Rightarrow> False | Some b \<Rightarrow> b))], Rejected (Thrown x))"
  using getTransaction_throwing_Resolved [OF assms(1), of throws "stores" None] assms(2,3)
  by (simp add: getObjectsByIndex_throwing_def thenP_def Let_def try_calls_def)


lemma removeObjectsByKey_throwing_refused:
  assumes "init svc eng = (cs, Resolved db)"
    and "throws (Transaction db (stores) ReadWrite) = None"
    and "throws (Delete store rng) = Some x"
  shows "removeObjectsByKey_throwing throws svc eng stores store rng =
     (cs @ [Transaction db (stores) ReadWrite, Delete store rng], Rejected (Thrown x))"
  using getTransaction_throwing_Resolved [OF assms(1), of throws "stores" "Some ReadWrite"] assms(2,3)
  by (simp add: removeObjectsByKey_throwing_def thenP_def Let_def try_calls_def)






lemma updateObjectsByIndex_throwing_refused:
  assumes "init svc eng = (cs, Resolved db)"
    and "throws (Transaction db (Name store) ReadWrite) = None"
    and "throws (if (case allMatches of None \<Rightarrow> False | Some b \<Rightarrow> b) then IndexOpenCursor store idx (Some indexVal) None else IndexGet store idx indexVal) = Some x"
  shows "updateObjectsByIndex_throwing throws svc eng store (Some idx) indexVal (param # params) allMatches =
     (cs @ [Transaction db (Name store) ReadWrite, if (case allMatches of None \<Rightarrow> False | Some b \<Rightarrow> b) then IndexOpenCursor store idx (Some indexVal) None else IndexGet store idx indexVal], Rejected (Thrown x))"
  using getTransaction_throwing_Resolved [OF assms(1), of throws "Name store" "Some ReadWrite"] assms(2,3)
  by (simp add: updateObjectsByIndex_throwing_def thenP_def Let_def try_calls_def)



section \<open>The example\<close>

lemma example_init: "init (constructor example_config) (example_engine evs) = (example_calls, Resolved 0)"
  by (simp add: init_def constructor_def example_config_def example_engine_def example_calls_def
      init_onupgradeneeded_def)

lemma example_engine_events [simp]: "(example_engine evs)\<lparr>tx_events := evs'\<rparr> = example_engine evs'"
  by (simp add: example_engine_def)

lemma example_engine_tx_events [simp]: "tx_events (example_engine evs) = evs"
  by (simp add: example_engine_def)

section \<open>The claims\<close>

text \<open>
  C1. During \<open>_init_\<close>, when the engine fires the upgrade-needed event on the open
  request, \<open>onUpgradeNeeded\<close> is called on the database of the event if and only if
  \<open>onVersionChange\<close> returns true on that database; the constructor replaces an
  omitted \<open>onVersionChange\<close> by a function that always returns true, so that
  \<open>onUpgradeNeeded\<close> is then called at every upgrade. (An \<open>_init_\<close> that finds no
  \<open>window.indexedDB\<close>, or whose \<open>open\<close> throws, sets no handler and calls nothing.)
\<close>

theorem upgrade_needed_iff_version_change:
  "((OnUpgradeNeeded db \<in> set (fst (init svc eng))) =
      (indexedDB eng \<and> open_throws eng = None \<and> OpenUpgradeNeeded db \<in> set (open_events eng) \<and>
       (case onVersionChange (idbServiceConfig svc) of None \<Rightarrow> False | Some f \<Rightarrow> f db))) \<and>
   onVersionChange (idbServiceConfig (constructor cfg)) =
      Some (case onVersionChange cfg of None \<Rightarrow> (\<lambda>db. True) | Some f \<Rightarrow> f) \<and>
   ((OnUpgradeNeeded db \<in> set (fst (init (constructor (cfg\<lparr>onVersionChange := None\<rparr>)) eng))) =
      (indexedDB eng \<and> open_throws eng = None \<and> OpenUpgradeNeeded db \<in> set (open_events eng)))"
  by (auto simp: init_def init_step_upgrade constructor_def split: option.splits)

text \<open>
  C5. \<open>getObjectByKey\<close> issues one \<open>get\<close> in a read-only transaction; at the
  success event of the request its promise is resolved with the cast function applied
  to the result, which is the result itself when no cast function is given; at the
  error event of the request it is rejected with the event; before either it is
  pending.
\<close>

theorem getObjectByKey_settles:
  assumes "init svc eng = (cs, Resolved db)"
  shows "getObjectByKey svc (eng\<lparr>tx_events := Success 0 r # rest\<rparr>) stores store keyRange (Some f) =
       (cs @ [Transaction db stores ReadOnly, Get store keyRange], Resolved (f r)) \<and>
     getObjectByKey svc (eng\<lparr>tx_events := Success 0 r # rest\<rparr>) stores store keyRange None =
       (cs @ [Transaction db stores ReadOnly, Get store keyRange], Resolved r) \<and>
     getObjectByKey svc (eng\<lparr>tx_events := Error 0 evt # rest\<rparr>) stores store keyRange cast_op =
       (cs @ [Transaction db stores ReadOnly, Get store keyRange], Rejected (Event evt)) \<and>
     getObjectByKey svc (eng\<lparr>tx_events := []\<rparr>) stores store keyRange cast_op =
       (cs @ [Transaction db stores ReadOnly, Get store keyRange], Pending)"
  using assms
  by (simp add: getObjectByKey_success getObjectByKey_error getObjectByKey_waiting cast_def)

theorem getObjectByKey_settles_witness:
  "getObjectByKey (constructor example_config) (example_engine [Success 0 (7::nat), Complete])
       (Name ''people'') ''people'' (1::nat) (Some Suc) =
     (example_calls @ [Transaction 0 (Name ''people'') ReadOnly, Get ''people'' 1], Resolved 8) \<and>
   getObjectByKey (constructor example_config) (example_engine [Success 0 (7::nat), Complete])
       (Name ''people'') ''people'' (1::nat) None =
     (example_calls @ [Transaction 0 (Name ''people'') ReadOnly, Get ''people'' 1], Resolved 7) \<and>
   getObjectByKey (constructor example_config) (example_engine ([Error 0 4, TxError 4] :: (nat, nat) tx_event list))
       (Name ''people'') ''people'' (1::nat) None =
     (example_calls @ [Transaction 0 (Name ''people'') ReadOnly, Get ''people'' 1], Rejected (Event 4))"
  using getObjectByKey_settles [OF example_init, where r = "7::nat" and rest = "[Complete]"
      and stores = "Name ''people''" and store = "''people''" and keyRange = "1::nat" and f = Suc
      and evt = 4 and cast_op = None]
    getObjectByKey_settles [OF example_init, where r = "7::nat" and rest = "[TxError 4]"
      and stores = "Name ''people''" and store = "''people''" and keyRange = "1::nat" and f = Suc
      and evt = 4 and cast_op = None]
  by simp

text \<open>
  C4. \<open>getObjects\<close> opens one cursor in a read-only transaction and continues it at
  every record; when the cursor is exhausted its promise is resolved with the values
  the cursor has visited, in the order of the visit, each mapped through the cast
  function (the identity when none is given); until then it is pending; an error
  event of the cursor request before that rejects it with the event.
\<close>

theorem getObjects_collects_cursor_values:
  assumes "init svc eng = (cs, Resolved db)"
  shows "getObjects svc
         (eng\<lparr>tx_events := map (\<lambda>v. CursorSuccess 0 (Some v)) vs @ [CursorSuccess 0 None]\<rparr>)
         stores store keyRange reverse cast_op =
       (cs @ [Transaction db stores ReadOnly,
              OpenCursor store keyRange
                (getObjects_direction (case reverse of None \<Rightarrow> False | Some b \<Rightarrow> b))]
           @ replicate (length vs) Continue,
        Resolved (map (case cast_op of None \<Rightarrow> (\<lambda>v. v) | Some f \<Rightarrow> f) vs)) \<and>
     getObjects svc (eng\<lparr>tx_events := map (\<lambda>v. CursorSuccess 0 (Some v)) vs\<rparr>)
         stores store keyRange reverse cast_op =
       (cs @ [Transaction db stores ReadOnly,
              OpenCursor store keyRange
                (getObjects_direction (case reverse of None \<Rightarrow> False | Some b \<Rightarrow> b))]
           @ replicate (length vs) Continue,
        Pending) \<and>
     snd (getObjects svc
         (eng\<lparr>tx_events := map (\<lambda>v. CursorSuccess 0 (Some v)) vs @ CursorSuccess 0 None # rest\<rparr>)
         stores store keyRange reverse cast_op) =
       Resolved (map (case cast_op of None \<Rightarrow> (\<lambda>v. v) | Some f \<Rightarrow> f) vs) \<and>
     snd (getObjects svc
         (eng\<lparr>tx_events := map (\<lambda>v. CursorSuccess 0 (Some v)) vs @ Error 0 evt # rest\<rparr>)
         stores store keyRange reverse cast_op) =
       Rejected (Event evt)"
proof -
  have c: "(case cast_op of None \<Rightarrow> cast | Some f \<Rightarrow> f) = (case cast_op of None \<Rightarrow> (\<lambda>v. v) | Some f \<Rightarrow> f)"
    by (auto simp: cast_def split: option.splits)
  show ?thesis
    by (simp add: getObjects_exhausted [OF assms] getObjects_visiting [OF assms]
        getObjects_settles [OF assms] c del: foldl_append foldl_Cons)
qed

theorem getObjects_collects_cursor_values_witness:
  "getObjects (constructor example_config)
       (example_engine [CursorSuccess 0 (Some (3::nat)), CursorSuccess 0 (Some 1), CursorSuccess 0 None])
       (Name ''people'') ''people'' (None :: nat option) None (Some Suc) =
     (example_calls @ [Transaction 0 (Name ''people'') ReadOnly, OpenCursor ''people'' None (Some Prev),
        Continue, Continue],
      Resolved [4, 2]) \<and>
   snd (getObjects (constructor example_config)
       (example_engine [CursorSuccess 0 (Some (3::nat)), CursorSuccess 0 (Some 1), Error 0 5, TxError 5])
       (Name ''people'') ''people'' (None :: nat option) None (Some Suc)) =
     Rejected (Event 5)"
  using getObjects_collects_cursor_values [OF example_init, where vs = "[3, 1::nat]"
      and stores = "Name ''people''" and store = "''people''" and keyRange = "None :: nat option"
      and reverse = None and cast_op = "Some Suc" and evt = 5 and rest = "[TxError 5]"]
  by (simp add: getObjects_direction_def)

text \<open>
  C7. \<open>removeObjectsByKey\<close> issues a single \<open>delete\<close> of the key range in a
  read-write transaction. Its promise is resolved, with no value, at the complete
  event of the transaction and rejected with the event at an error event of the
  transaction, whichever comes first; while neither has come it is pending, and it is
  never resolved unless the transaction has completed.
\<close>

theorem removeObjectsByKey_waits_for_transaction:
  assumes "init svc eng = (cs, Resolved db)"
    and "Complete \<notin> set pre" "\<forall>e. TxError e \<notin> set pre"
  shows "fst (removeObjectsByKey svc eng stores store rng) =
       cs @ [Transaction db stores ReadWrite, Delete store rng] \<and>
     removeObjectsByKey svc (eng\<lparr>tx_events := pre @ Complete # rest\<rparr>) stores store rng =
       (cs @ [Transaction db stores ReadWrite, Delete store rng], Resolved ()) \<and>
     removeObjectsByKey svc (eng\<lparr>tx_events := pre @ TxError evt # rest\<rparr>) stores store rng =
       (cs @ [Transaction db stores ReadWrite, Delete store rng], Rejected (Event evt)) \<and>
     removeObjectsByKey svc (eng\<lparr>tx_events := pre\<rparr>) stores store rng =
       (cs @ [Transaction db stores ReadWrite, Delete store rng], Pending) \<and>
     (snd (removeObjectsByKey svc eng stores store rng) = Resolved () \<longrightarrow>
        Complete \<in> set (tx_events eng))"
  using assms
  by (simp add: removeObjectsByKey_calls removeObjectsByKey_complete removeObjectsByKey_error
      removeObjectsByKey_waiting removeObjectsByKey_resolved)

theorem removeObjectsByKey_waits_for_transaction_witness:
  "removeObjectsByKey (constructor example_config) (example_engine [Success 0 (0::nat), Complete])
       (Name ''people'') ''people'' (1::nat) =
     (example_calls @ [Transaction 0 (Name ''people'') ReadWrite, Delete ''people'' 1], Resolved ()) \<and>
   removeObjectsByKey (constructor example_config) (example_engine [Error 0 6, TxError 6 :: (nat, nat) tx_event])
       (Name ''people'') ''people'' (1::nat) =
     (example_calls @ [Transaction 0 (Name ''people'') ReadWrite, Delete ''people'' 1], Rejected (Event 6)) \<and>
   removeObjectsByKey (constructor example_config) (example_engine [Success 0 (0::nat)])
       (Name ''people'') ''people'' (1::nat) =
     (example_calls @ [Transaction 0 (Name ''people'') ReadWrite, Delete ''people'' 1], Pending)"
  using removeObjectsByKey_waits_for_transaction [OF example_init, where pre = "[Success 0 (0::nat)]"
      and rest = "[]" and stores = "Name ''people''" and store = "''people''" and rng = "1::nat"]
    removeObjectsByKey_waits_for_transaction [OF example_init, where pre = "[Error 0 6 :: (nat, nat) tx_event]"
      and rest = "[]" and stores = "Name ''people''" and store = "''people''" and rng = "1::nat"
      and evt = 6]
  by simp



lemma js_getObjects_then_exhausted:
  "js_getObjects_then tx store params (map (\<lambda>v. CursorSuccess 0 (Some v)) vs @ [CursorSuccess 0 None]) =
     ([OpenCursor store (case params of None \<Rightarrow> None | Some ps \<Rightarrow> gp_values ps)
         (js_getObjects_direction params)] @ replicate (length vs) Continue,
      Resolved (map (case params of None \<Rightarrow> cast
                     | Some ps \<Rightarrow> (case gp_castOp ps of None \<Rightarrow> cast | Some f \<Rightarrow> f)) vs))"
  by (simp add: js_getObjects_then_def Let_def getObjects_visit)

lemma init_no_continue: "init svc eng = (cs, p) \<Longrightarrow> Continue \<notin> set cs"
proof -
  assume i: "init svc eng = (cs, p)"
  then have "filter (\<lambda>c. c = Continue) cs = filter (\<lambda>c. c = Continue) (fst (init svc eng))"
    by simp
  also have "\<dots> = []"
    by (simp add: init_filter)
  finally show ?thesis
    by (auto simp: filter_empty_conv)
qed

text \<open>
  C8. In the TypeScript source \<open>getObjects\<close> opens its cursor with direction
  \<open>"prev"\<close> when \<open>reverse\<close> is false or omitted and with no direction when it is
  true; \<open>getObjectsByIndex\<close> opens its cursor with \<open>"prev"\<close> exactly when
  \<open>reverse\<close> is true, and so does \<open>getObjects\<close> of the compiled JavaScript. On an
  engine whose cursor visits the records in descending order for \<open>"prev"\<close> and in
  ascending order otherwise, \<open>getObjects\<close> therefore resolves with the records in the
  order opposite to that of \<open>getObjectsByIndex\<close> and of the compiled \<open>getObjects\<close>,
  for the same records and the same flag.
\<close>

theorem getObjects_direction_is_inverted:
  assumes "init svc eng = (cs, Resolved db)"
  shows "getObjects svc (eng\<lparr>tx_events := cursor_events (getObjects_direction b) records\<rparr>)
         stores store keyRange (Some b) cast_op =
       (cs @ [Transaction db stores ReadOnly,
              OpenCursor store keyRange (if b then None else Some Prev)]
           @ replicate (length records) Continue,
        Resolved (map (case cast_op of None \<Rightarrow> cast | Some f \<Rightarrow> f)
          (if b then records else rev records))) \<and>
     getObjects svc (eng\<lparr>tx_events := cursor_events (getObjects_direction False) records\<rparr>)
         stores store keyRange None cast_op =
       (cs @ [Transaction db stores ReadOnly, OpenCursor store keyRange (Some Prev)]
           @ replicate (length records) Continue,
        Resolved (map (case cast_op of None \<Rightarrow> cast | Some f \<Rightarrow> f) (rev records))) \<and>
     getObjectsByIndex svc (eng\<lparr>tx_events := cursor_events (getObjectsByIndex_direction b) records\<rparr>)
         stores store index rng (Some b) cast_op =
       (cs @ [Transaction db stores ReadOnly,
              IndexOpenCursor store index rng (if b then Some Prev else None)]
           @ replicate (length records) Continue,
        Resolved (map (case cast_op of None \<Rightarrow> cast | Some f \<Rightarrow> f)
          (if b then rev records else records))) \<and>
     js_getObjects_then (Trans db stores ReadOnly) store (Some (params\<lparr>gp_reverse := Some b\<rparr>))
         (tx_events (eng\<lparr>tx_events :=
            cursor_events (js_getObjects_direction (Some (params\<lparr>gp_reverse := Some b\<rparr>))) records\<rparr>)) =
       ([OpenCursor store (gp_values params) (if b then Some Prev else None)]
           @ replicate (length records) Continue,
        Resolved (map (case gp_castOp params of None \<Rightarrow> cast | Some f \<Rightarrow> f)
          (if b then rev records else records))) \<and>
     traverse (getObjects_direction b) records =
       rev (traverse (getObjectsByIndex_direction b) records) \<and>
     traverse (getObjects_direction b) records =
       rev (traverse (js_getObjects_direction (Some (params\<lparr>gp_reverse := Some b\<rparr>))) records)"
  by (simp add: cursor_events_def getObjects_exhausted [OF assms] getObjectsByIndex_exhausted [OF assms]
      js_getObjects_then_exhausted traverse_def getObjects_direction_def
      getObjectsByIndex_direction_def js_getObjects_direction_def)

theorem getObjects_direction_is_inverted_witness:
  "getObjects (constructor example_config)
       (example_engine (cursor_events (getObjects_direction False) [1, 2, 3::nat]))
       (Name ''people'') ''people'' (None :: nat option) (Some False) None =
     (example_calls @ [Transaction 0 (Name ''people'') ReadOnly, OpenCursor ''people'' None (Some Prev),
        Continue, Continue, Continue],
      Resolved [3, 2, 1]) \<and>
   getObjectsByIndex (constructor example_config)
       (example_engine (cursor_events (getObjectsByIndex_direction False) [1, 2, 3::nat]))
       (Name ''people'') ''people'' ''byAge'' (None :: nat option) (Some False) None =
     (example_calls @ [Transaction 0 (Name ''people'') ReadOnly,
        IndexOpenCursor ''people'' ''byAge'' None None, Continue, Continue, Continue],
      Resolved [1, 2, 3])"
  using getObjects_direction_is_inverted [OF example_init, where b = False and records = "[1, 2, 3::nat]"
      and stores = "Name ''people''" and store = "''people''" and keyRange = "None :: nat option"
      and cast_op = None and index = "''byAge''" and rng = "None :: nat option"
      and params = "\<lparr>gp_reverse = None, gp_index = None, gp_values = None :: nat option,
        gp_unique = None, gp_castOp = None :: (nat \<Rightarrow> nat) option\<rparr>"]
  by (simp add: cast_def)

text \<open>
  C9. Without \<open>allMatches\<close>, \<open>updateObjectsByIndex\<close> resolves with the one-element
  array that holds the updated object. With \<open>allMatches\<close>, the handler of the cursor
  issues the \<open>put\<close> of the record it is given and never continues the cursor: the
  promise is resolved only if the engine delivers the null cursor, as it does at once
  when no record matches, and then with the one-element array that holds the array of
  the updated objects; as long as the null cursor is not delivered the promise stays
  pending, whatever else happens.
\<close>

theorem updateObjectsByIndex_allMatches_stalls:
  assumes "init svc eng = (cs, Resolved db)"
    and "CursorSuccess 0 None \<notin> set evs"
  shows "updateObjectsByIndex svc (eng\<lparr>tx_events := [Success 0 (Some ob), Success 1 r, Complete]\<rparr>)
         store (Some idx) indexVal (param # params) None =
       (cs @ [Transaction db (Name store) ReadWrite, IndexGet store idx indexVal,
              Put store (fold (\<lambda>param ob. AList.update (p_name param) (p_value param) ob)
                (param # params) ob)],
        Resolved [Single (fold (\<lambda>param ob. AList.update (p_name param) (p_value param) ob)
                (param # params) ob)]) \<and>
     updateObjectsByIndex svc (eng\<lparr>tx_events := [CursorSuccess 0 None, Complete]\<rparr>)
         store (Some idx) indexVal (param # params) (Some True) =
       (cs @ [Transaction db (Name store) ReadWrite, IndexOpenCursor store idx (Some indexVal) None],
        Resolved [Multiple []]) \<and>
     snd (updateObjectsByIndex svc (eng\<lparr>tx_events := evs\<rparr>)
         store (Some idx) indexVal (param # params) (Some True)) = Pending \<and>
     Continue \<notin> set (fst (updateObjectsByIndex svc (eng\<lparr>tx_events := evs\<rparr>)
         store (Some idx) indexVal (param # params) (Some True)))"
proof -
  have i: "init svc (eng\<lparr>tx_events := evs\<rparr>) = (cs, Resolved db)"
    using assms(1) by simp
  have "filter (\<lambda>c. c = Continue) (fst (updateObjectsByIndex svc (eng\<lparr>tx_events := evs\<rparr>)
         store (Some idx) indexVal (param # params) (Some True))) = []"
    using init_no_continue [OF assms(1)]
    by (auto simp: updateObjectsByIndex_no_continue [OF i] filter_empty_conv)
  then have "Continue \<notin> set (fst (updateObjectsByIndex svc (eng\<lparr>tx_events := evs\<rparr>)
         store (Some idx) indexVal (param # params) (Some True)))"
    by (auto simp: filter_empty_conv)
  moreover have "snd (updateObjectsByIndex svc (eng\<lparr>tx_events := evs\<rparr>)
         store (Some idx) indexVal (param # params) (Some True)) = Pending"
    using assms(2) by (intro updateObjectsByIndex_stalls [OF i]) simp
  ultimately show ?thesis
    using updateObjectsByIndex_one [OF assms(1), of ob r store idx indexVal param params]
      updateObjectsByIndex_no_match [OF assms(1), of store idx indexVal param params]
    by blast
qed

theorem updateObjectsByIndex_allMatches_stalls_witness:
  "updateObjectsByIndex (constructor example_config)
       (example_engine [CursorSuccess 0 (Some (Some [(''name'', 1::nat), (''age'', 30)])),
          Success 1 None, Complete])
       ''people'' (Some ''byAge'') (30::nat) [\<lparr>p_index = None, p_name = ''age'', p_value = 31\<rparr>]
       (Some True) =
     (example_calls @ [Transaction 0 (Name ''people'') ReadWrite,
        IndexOpenCursor ''people'' ''byAge'' (Some 30) None,
        Put ''people'' [(''name'', 1), (''age'', 31)]],
      Pending) \<and>
   updateObjectsByIndex (constructor example_config)
       (example_engine [Success 0 (Some [(''name'', 1::nat), (''age'', 30)]), Success 1 None, Complete])
       ''people'' (Some ''byAge'') (30::nat) [\<lparr>p_index = None, p_name = ''age'', p_value = 31\<rparr>]
       None =
     (example_calls @ [Transaction 0 (Name ''people'') ReadWrite,
        IndexGet ''people'' ''byAge'' 30,
        Put ''people'' [(''name'', 1), (''age'', 31)]],
      Resolved [Single [(''name'', 1), (''age'', 31)]])"
proof -
  have calls: "fst (updateObjectsByIndex (constructor example_config)
       (example_engine [CursorSuccess 0 (Some (Some [(''name'', 1::nat), (''age'', 30)])),
          Success 1 None, Complete])
       ''people'' (Some ''byAge'') (30::nat) [\<lparr>p_index = None, p_name = ''age'', p_value = 31\<rparr>]
       (Some True)) =
     example_calls @ [Transaction 0 (Name ''people'') ReadWrite,
        IndexOpenCursor ''people'' ''byAge'' (Some 30) None,
        Put ''people'' [(''name'', 1), (''age'', 31)]]"
    by (simp add: updateObjectsByIndex_def getTransaction_Resolved [OF example_init] Let_def
        updateOne_def put_onsuccess_def settle_all_def)
  show ?thesis
    using updateObjectsByIndex_allMatches_stalls [OF example_init,
        where evs = "[CursorSuccess 0 (Some (Some [(''name'', 1::nat), (''age'', 30)])),
          Success 1 None, Complete]"
        and store = "''people''" and idx = "''byAge''" and indexVal = "30::nat"
        and param = "\<lparr>p_index = None, p_name = ''age'', p_value = 31\<rparr>" and params = "[]"
        and ob = "[(''name'', 1::nat), (''age'', 30)]" and r = None] calls
    by (simp add: prod_eq_iff)
qed

section \<open>All operations together\<close>




lemma rejected_pairD: "m = (calls, Rejected r) \<Longrightarrow> snd m = Rejected r"
  by simp



lemma getTransaction_svc_db [simp]:
  "getTransaction (svc\<lparr>svc_db := h\<rparr>) eng stores mode = getTransaction svc eng stores mode"
  by (simp add: getTransaction_def)

lemma getObjectByKey_svc_db:
  "getObjectByKey (svc\<lparr>svc_db := h\<rparr>) eng stores store keyRange cast_op =
   getObjectByKey svc eng stores store keyRange cast_op"
  by (simp add: getObjectByKey_def)

lemma getObjects_svc_db:
  "getObjects (svc\<lparr>svc_db := h\<rparr>) eng stores store keyRange reverse cast_op =
   getObjects svc eng stores store keyRange reverse cast_op"
  by (simp add: getObjects_def)

lemma getObjectsByIndex_svc_db:
  "getObjectsByIndex (svc\<lparr>svc_db := h\<rparr>) eng stores store index rng reverse cast_op =
   getObjectsByIndex svc eng stores store index rng reverse cast_op"
  by (simp add: getObjectsByIndex_def)

lemma removeObjectsByKey_svc_db:
  "removeObjectsByKey (svc\<lparr>svc_db := h\<rparr>) eng stores store rng =
   removeObjectsByKey svc eng stores store rng"
  by (simp add: removeObjectsByKey_def)

lemma clearStore_svc_db:
  "clearStore (svc\<lparr>svc_db := h\<rparr>) eng store = clearStore svc eng store"
  by (simp add: clearStore_def)

lemma storeObjects_svc_db:
  "storeObjects (svc\<lparr>svc_db := h\<rparr>) eng store data = storeObjects svc eng store data"
  by (simp add: storeObjects_def)

lemma replaceObjectByKey_svc_db:
  "replaceObjectByKey (svc\<lparr>svc_db := h\<rparr>) eng store key val = replaceObjectByKey svc eng store key val"
  by (simp add: replaceObjectByKey_def split: option.splits)

lemma updateObjectsByIndex_svc_db:
  "updateObjectsByIndex (svc\<lparr>svc_db := h\<rparr>) eng store index indexVal params allMatches =
   updateObjectsByIndex svc eng store index indexVal params allMatches"
  by (simp add: updateObjectsByIndex_def Let_def split: option.splits)

lemma init_opens:
  "filter is_open (fst (init svc eng)) =
     (if indexedDB eng then [Open (svc_database svc) (svc_version svc)] else [])"
  by (simp add: init_filter)

lemma init_never_closes: "filter is_close (fst (init svc eng)) = []"
  by (simp add: init_filter)

lemma operation_not_open: "is_operation c \<Longrightarrow> \<not> is_open c"
  by (cases c) simp_all

lemma operation_not_close: "is_operation c \<Longrightarrow> \<not> is_close c"
  by (cases c) simp_all

lemma getObjectByKey_opens:
  "filter is_open (fst (getObjectByKey svc eng stores store keyRange cast_op)) =
     (if indexedDB eng then [Open (svc_database svc) (svc_version svc)] else [])"
  by (rule trans [OF getObjectByKey_handle init_opens]) (simp_all add: operation_not_open)

lemma getObjectByKey_never_closes:
  "filter is_close (fst (getObjectByKey svc eng stores store keyRange cast_op)) = []"
  by (rule trans [OF getObjectByKey_handle init_never_closes]) (simp_all add: operation_not_close)

lemma getObjects_opens:
  "filter is_open (fst (getObjects svc eng stores store keyRange reverse cast_op)) =
     (if indexedDB eng then [Open (svc_database svc) (svc_version svc)] else [])"
  by (rule trans [OF getObjects_handle init_opens]) (simp_all add: operation_not_open)

lemma getObjects_never_closes:
  "filter is_close (fst (getObjects svc eng stores store keyRange reverse cast_op)) = []"
  by (rule trans [OF getObjects_handle init_never_closes]) (simp_all add: operation_not_close)

lemma getObjectsByIndex_opens:
  "filter is_open (fst (getObjectsByIndex svc eng stores store index rng reverse cast_op)) =
     (if indexedDB eng then [Open (svc_database svc) (svc_version svc)] else [])"
  by (rule trans [OF getObjectsByIndex_handle init_opens]) (simp_all add: operation_not_open)

lemma getObjectsByIndex_never_closes:
  "filter is_close (fst (getObjectsByIndex svc eng stores store index rng reverse cast_op)) = []"
  by (rule trans [OF getObjectsByIndex_handle init_never_closes]) (simp_all add: operation_not_close)

lemma removeObjectsByKey_opens:
  "filter is_open (fst (removeObjectsByKey svc eng stores store rng)) =
     (if indexedDB eng then [Open (svc_database svc) (svc_version svc)] else [])"
  by (rule trans [OF removeObjectsByKey_handle init_opens]) (simp_all add: operation_not_open)

lemma removeObjectsByKey_never_closes:
  "filter is_close (fst (removeObjectsByKey svc eng stores store rng)) = []"
  by (rule trans [OF removeObjectsByKey_handle init_never_closes]) (simp_all add: operation_not_close)

lemma clearStore_opens:
  "filter is_open (fst (clearStore svc eng store)) =
     (if indexedDB eng then [Open (svc_database svc) (svc_version svc)] else [])"
  by (rule trans [OF clearStore_handle init_opens]) (simp_all add: operation_not_open)

lemma clearStore_never_closes:
  "filter is_close (fst (clearStore svc eng store)) = []"
  by (rule trans [OF clearStore_handle init_never_closes]) (simp_all add: operation_not_close)

lemma storeObjects_opens:
  "filter is_open (fst (storeObjects svc eng store data)) =
     (if indexedDB eng then [Open (svc_database svc) (svc_version svc)] else [])"
  by (rule trans [OF storeObjects_handle init_opens]) (simp_all add: operation_not_open)

lemma storeObjects_never_closes:
  "filter is_close (fst (storeObjects svc eng store data)) = []"
  by (rule trans [OF storeObjects_handle init_never_closes]) (simp_all add: operation_not_close)

lemma replaceObjectByKey_opens:
  "filter is_open (fst (replaceObjectByKey svc eng store (Some k) val)) =
     (if indexedDB eng then [Open (svc_database svc) (svc_version svc)] else [])"
  by (rule trans [OF replaceObjectByKey_handle init_opens]) (simp_all add: operation_not_open)

lemma replaceObjectByKey_never_closes:
  "filter is_close (fst (replaceObjectByKey svc eng store (Some k) val)) = []"
  by (rule trans [OF replaceObjectByKey_handle init_never_closes]) (simp_all add: operation_not_close)

lemma updateObjectsByIndex_opens:
  "filter is_open (fst (updateObjectsByIndex svc eng store (Some idx) indexVal (param # params) allMatches)) =
     (if indexedDB eng then [Open (svc_database svc) (svc_version svc)] else [])"
  by (rule trans [OF updateObjectsByIndex_handle init_opens]) (simp_all add: operation_not_open)

lemma updateObjectsByIndex_never_closes:
  "filter is_close (fst (updateObjectsByIndex svc eng store (Some idx) indexVal (param # params) allMatches)) = []"
  by (rule trans [OF updateObjectsByIndex_handle init_never_closes]) (simp_all add: operation_not_close)




text \<open>
  C10, as amended. Every public operation that passes its own argument checks calls
  \<open>getTransaction\<close>, which calls \<open>_init_\<close>; when \<open>window.indexedDB\<close> exists
  \<open>_init_\<close> calls \<open>open\<close> once, with the name and the version of the
  configuration, and otherwise not at all. No operation closes a handle, and none
  depends on the field \<open>_db\<close>, which the constructor leaves unset. The operations
  that check their arguments (\<open>replaceObjectByKey\<close> its key,
  \<open>updateObjectsByIndex\<close> its parameters and its index) reject without calling
  \<open>getTransaction\<close> when the check fails, and then open nothing.
\<close>

theorem every_operation_opens_anew:
  "filter is_open (fst (getObjectByKey svc eng stores store key cast_op)) =
     (if indexedDB eng then [Open (svc_database svc) (svc_version svc)] else []) \<and>
   filter is_open (fst (getObjects svc eng stores store keyRange reverse cast_op)) =
     (if indexedDB eng then [Open (svc_database svc) (svc_version svc)] else []) \<and>
   filter is_open (fst (getObjectsByIndex svc eng stores store index keyRange reverse cast_op)) =
     (if indexedDB eng then [Open (svc_database svc) (svc_version svc)] else []) \<and>
   filter is_open (fst (removeObjectsByKey svc eng stores store key)) =
     (if indexedDB eng then [Open (svc_database svc) (svc_version svc)] else []) \<and>
   filter is_open (fst (clearStore svc eng store)) =
     (if indexedDB eng then [Open (svc_database svc) (svc_version svc)] else []) \<and>
   filter is_open (fst (storeObjects svc eng store data)) =
     (if indexedDB eng then [Open (svc_database svc) (svc_version svc)] else []) \<and>
   filter is_open (fst (replaceObjectByKey svc eng store (Some key) val)) =
     (if indexedDB eng then [Open (svc_database svc) (svc_version svc)] else []) \<and>
   filter is_open
       (fst (updateObjectsByIndex svc engU store (Some index) key (param # params) allMatches)) =
     (if indexedDB engU then [Open (svc_database svc) (svc_version svc)] else []) \<and>
   filter is_close (fst (getObjectByKey svc eng stores store key cast_op)) = [] \<and>
   filter is_close (fst (getObjects svc eng stores store keyRange reverse cast_op)) = [] \<and>
   filter is_close (fst (getObjectsByIndex svc eng stores store index keyRange reverse cast_op)) = [] \<and>
   filter is_close (fst (removeObjectsByKey svc eng stores store key)) = [] \<and>
   filter is_close (fst (clearStore svc eng store)) = [] \<and>
   filter is_close (fst (storeObjects svc eng store data)) = [] \<and>
   filter is_close (fst (replaceObjectByKey svc eng store okey val)) = [] \<and>
   filter is_close (fst (updateObjectsByIndex svc engU store oindex key oparams allMatches)) = [] \<and>
   getObjectByKey (svc\<lparr>svc_db := h\<rparr>) eng stores store key cast_op =
     getObjectByKey svc eng stores store key cast_op \<and>
   getObjects (svc\<lparr>svc_db := h\<rparr>) eng stores store keyRange reverse cast_op =
     getObjects svc eng stores store keyRange reverse cast_op \<and>
   getObjectsByIndex (svc\<lparr>svc_db := h\<rparr>) eng stores store index keyRange reverse cast_op =
     getObjectsByIndex svc eng stores store index keyRange reverse cast_op \<and>
   removeObjectsByKey (svc\<lparr>svc_db := h\<rparr>) eng stores store key =
     removeObjectsByKey svc eng stores store key \<and>
   clearStore (svc\<lparr>svc_db := h\<rparr>) eng store = clearStore svc eng store \<and>
   storeObjects (svc\<lparr>svc_db := h\<rparr>) eng store data = storeObjects svc eng store data \<and>
   replaceObjectByKey (svc\<lparr>svc_db := h\<rparr>) eng store okey val =
     replaceObjectByKey svc eng store okey val \<and>
   updateObjectsByIndex (svc\<lparr>svc_db := h\<rparr>) engU store oindex key oparams allMatches =
     updateObjectsByIndex svc engU store oindex key oparams allMatches \<and>
   svc_database (constructor cfg) = database cfg \<and>
   svc_version (constructor cfg) = version cfg \<and>
   svc_db (constructor cfg) = None \<and>
   replaceObjectByKey svc eng store None val =
     ([], Rejected (JsError ''updateByIndex() needs a key value!'')) \<and>
   updateObjectsByIndex svc engU store oindex key [] allMatches =
     ([], Rejected (JsError ''updateByIndex() needs at least one PutParams'')) \<and>
   updateObjectsByIndex svc engU store None key (param # params) allMatches =
     ([], Rejected (JsError ''updateByProperty() needs index of the value!''))"
proof -
  have closes:
    "filter is_close (fst (replaceObjectByKey svc eng store okey val)) = []"
    "filter is_close (fst (updateObjectsByIndex svc engU store oindex key oparams allMatches)) = []"
  proof -
    show "filter is_close (fst (replaceObjectByKey svc eng store okey val)) = []"
      by (cases okey) (simp_all add: replaceObjectByKey_undefined_key replaceObjectByKey_never_closes)
    show "filter is_close (fst (updateObjectsByIndex svc engU store oindex key oparams allMatches)) = []"
      by (cases oparams; cases oindex)
        (simp_all add: updateObjectsByIndex_no_params updateObjectsByIndex_no_index
          updateObjectsByIndex_never_closes)
  qed
  show ?thesis
    by (intro conjI closes getObjectByKey_svc_db getObjects_svc_db getObjectsByIndex_svc_db
        removeObjectsByKey_svc_db clearStore_svc_db storeObjects_svc_db replaceObjectByKey_svc_db
        updateObjectsByIndex_svc_db replaceObjectByKey_undefined_key updateObjectsByIndex_no_params
        updateObjectsByIndex_no_index getObjectByKey_opens getObjects_opens getObjectsByIndex_opens
        removeObjectsByKey_opens clearStore_opens storeObjects_opens replaceObjectByKey_opens
        updateObjectsByIndex_opens getObjectByKey_never_closes getObjects_never_closes
        getObjectsByIndex_never_closes removeObjectsByKey_never_closes clearStore_never_closes
        storeObjects_never_closes;
        simp add: constructor_def)
qed

text \<open>
  Against C10 as it is worded: \<open>replaceObjectByKey\<close> with an undefined key makes no
  call at all, and so opens no connection.
\<close>

theorem replaceObjectByKey_opens_nothing:
  "replaceObjectByKey (constructor example_config) (example_engine ([] :: (nat, nat) tx_event list))
       ''people'' (None :: nat option) (10::nat) =
     ([] :: (nat, nat, nat) call list, Rejected (JsError ''updateByIndex() needs a key value!'')) \<and>
   filter is_open (fst (replaceObjectByKey (constructor example_config)
       (example_engine ([] :: (nat, nat) tx_event list)) ''people'' (None :: nat option) (10::nat))) =
     ([] :: (nat, nat, nat) call list)"
  by (simp add: replaceObjectByKey_def)

end
